theory Spec2Isabelle
  imports Complex_Main "HOL-Library.Log_Nat" "HOL-Library.Word"
begin

unbundle bit_operations_syntax

section \<open>JavaScript numbers\<close>

text \<open>
  Every JavaScript number is an IEEE-754 binary64 value, and \<open>/\<close> and \<open>*\<close> return the
  exact quotient or product rounded to the nearest binary64 value, ties to the even
  significand. The link analyzer divides two counts and multiplies the quotient by 100
  before it compares or rounds, so the rounding of the quotient is visible in its results
  and is written out here: a finite number is the rational it denotes, and
  \<open>round_double\<close> is the rounding of an exact rational result. Overflow and subnormal
  numbers are left out: the operands are counts of links and words of one page (array
  lengths, below \<open>2 ^ 32\<close>), and components of embeddings, which are decimals of six
  places, with their products and sums; all are far from both ends of the exponent range.
\<close>

definition pow2 :: "int \<Rightarrow> rat" where
  "pow2 e = (if 0 \<le> e then 2 ^ nat e else 1 / 2 ^ nat (- e))"

text \<open>The exponent \<open>e\<close> with \<open>2 ^ e \<le> x < 2 ^ (e + 1)\<close>, for \<open>0 < x\<close>.\<close>

definition binade :: "rat \<Rightarrow> int" where
  "binade x = (if 1 \<le> x then int (floorlog 2 (nat \<lfloor>x\<rfloor>)) - 1
               else - int (floorlog 2 (nat (\<lceil>1 / x\<rceil> - 1))))"

definition round_half_even :: "rat \<Rightarrow> int" where
  "round_half_even m =
     (let f = \<lfloor>m\<rfloor>; r = m - of_int f
      in if r < 1 / 2 then f else if 1 / 2 < r then f + 1 else if even f then f else f + 1)"

text \<open>A binary64 significand has 53 bits, so neighbours in the binade of \<open>x\<close> are
  \<open>2 ^ (binade x - 52)\<close> apart.\<close>

definition round_double :: "rat \<Rightarrow> rat" where
  "round_double x =
     (if x = 0 then 0
      else let a = \<bar>x\<bar>; ulp = pow2 (binade a - 52)
           in sgn x * of_int (round_half_even (a / ulp)) * ulp)"

definition js_div :: "rat \<Rightarrow> rat \<Rightarrow> rat" where
  "js_div a b = round_double (a / b)"

definition js_mul :: "rat \<Rightarrow> rat \<Rightarrow> rat" where
  "js_mul a b = round_double (a * b)"

text \<open>\<open>Math.floor\<close>, and \<open>Math.round\<close>, which rounds a tie towards plus infinity.\<close>

definition Math_floor :: "rat \<Rightarrow> int" where
  "Math_floor x = \<lfloor>x\<rfloor>"

definition Math_round :: "rat \<Rightarrow> int" where
  "Math_round x = \<lfloor>x + 1 / 2\<rfloor>"

section \<open>JavaScript strings\<close>

text \<open>
  A string is the list of its code units, and a \<open>char\<close> is a code unit below 256. Of the
  white space that \<open>trim\<close> and the pattern class for white space recognise, tab, line
  feed, vertical tab, form feed, carriage return, space and the no-break space are in that
  range; of the line terminators that the pattern dot refuses, line feed and carriage
  return; \<open>toLowerCase\<close> moves the Latin capitals \<open>A\<close> to \<open>Z\<close> and the accented
  capitals 192 to 222, the multiplication sign 215 apart, up by 32.
\<close>

definition startsWith :: "string \<Rightarrow> string \<Rightarrow> bool" where
  "startsWith s p = (take (length p) s = p)"

fun string_includes :: "string \<Rightarrow> string \<Rightarrow> bool" where
  "string_includes [] p = (p = [])"
| "string_includes (x # xs) p = (startsWith (x # xs) p \<or> string_includes xs p)"

definition isDigit :: "char \<Rightarrow> bool" where
  "isDigit c = (c \<in> set ''0123456789'')"

definition isWhiteSpace :: "char \<Rightarrow> bool" where
  "isWhiteSpace c = (of_char c \<in> {9, 10, 11, 12, 13, 32, 160 :: nat})"

definition isLineTerminator :: "char \<Rightarrow> bool" where
  "isLineTerminator c = (of_char c \<in> {10, 13 :: nat})"

definition trim :: "string \<Rightarrow> string" where
  "trim s = rev (dropWhile isWhiteSpace (rev (dropWhile isWhiteSpace s)))"

definition toLowerCase_char :: "char \<Rightarrow> char" where
  "toLowerCase_char c =
     (let n = of_char c :: nat
      in if (65 \<le> n \<and> n \<le> 90) \<or> (192 \<le> n \<and> n \<le> 222 \<and> n \<noteq> 215)
         then char_of (n + 32) else c)"

definition toLowerCase :: "string \<Rightarrow> string" where
  "toLowerCase s = map toLowerCase_char s"

text \<open>The decimal digits of a count, and of an integer-valued number.\<close>

definition digit_char :: "nat \<Rightarrow> char" where
  "digit_char d = char_of (48 + d)"

fun toString :: "nat \<Rightarrow> string" where
  "toString n = (if n < 10 then [digit_char n] else toString (n div 10) @ [digit_char (n mod 10)])"

declare toString.simps [simp del]

definition numberToString :: "int \<Rightarrow> string" where
  "numberToString n = (if n < 0 then CHR ''-'' # toString (nat (- n)) else toString (nat n))"

section \<open>linkgap.js: configuration\<close>

text \<open>The object \<open>CONFIG\<close>. A decimal literal denotes the binary64 value nearest to it.\<close>

definition CONTEXTUAL_LINK_TARGET :: rat where
  "CONTEXTUAL_LINK_TARGET = 100"

definition MIN_CONTEXTUAL_DENSITY :: rat where
  "MIN_CONTEXTUAL_DENSITY = round_double (8 / 10)"

definition MAX_CONTEXTUAL_DENSITY :: rat where
  "MAX_CONTEXTUAL_DENSITY = 3"

definition THIN_CONTENT_THRESHOLD :: nat where
  "THIN_CONTENT_THRESHOLD = 300"

definition MEDIUM_CONTENT_THRESHOLD :: nat where
  "MEDIUM_CONTENT_THRESHOLD = 800"

definition MIN_WORDS_FOR_LINKS :: nat where
  "MIN_WORDS_FOR_LINKS = 50"

section \<open>linkgap.js: content quality\<close>

datatype quality = Thin | Medium | High

record contentData =
  words :: nat
  headings :: nat
  paragraphs :: nat
  list_count :: nat
  quality :: quality

text \<open>
  \<open>analyzeContentElement\<close> counts headings, paragraphs, lists and meaningful words on a
  cleaned copy of a document element and then classifies the content. The four counts are
  the arguments here; the classification is the function's lines after the counting.
\<close>

definition classify_words :: "nat \<Rightarrow> quality" where
  "classify_words w =
     (if w < THIN_CONTENT_THRESHOLD then Thin
      else if w < MEDIUM_CONTENT_THRESHOLD then Medium
      else High)"

definition promote :: "nat \<Rightarrow> nat \<Rightarrow> quality \<Rightarrow> quality" where
  "promote h p q = (if q = Medium \<and> 3 \<le> h \<and> 4 \<le> p then High else q)"

definition demote :: "nat \<Rightarrow> quality \<Rightarrow> quality" where
  "demote h q = (if q = High \<and> h < 2 then Medium else q)"

definition analyzeContentElement :: "nat \<Rightarrow> nat \<Rightarrow> nat \<Rightarrow> nat \<Rightarrow> contentData" where
  "analyzeContentElement w h p l =
     \<lparr>words = w, headings = h, paragraphs = p, list_count = l,
      quality = demote h (promote h p (classify_words w))\<rparr>"

text \<open>The ordering thin, medium, high.\<close>

fun quality_rank :: "quality \<Rightarrow> nat" where
  "quality_rank Thin = 0"
| "quality_rank Medium = 1"
| "quality_rank High = 2"

section \<open>linkgap.js: the link analysis\<close>

text \<open>
  \<open>analyzeLinksAdvanced\<close> visits every anchor that has an \<open>href\<close> attribute. An anchor
  is given here by that attribute, its \<open>rel\<close> attribute (empty when absent), its trimmed
  text and the class that \<open>getLinkContext\<close> finds among its ancestors; \<open>domain\<close> is
  the host name of the page. The stored link objects are kept as text and target.
\<close>

datatype linkContext = Contextual | Navigation | Footer

record linkData =
  contextual :: nat
  template :: nat
  navigation :: nat
  footer :: nat
  external :: nat
  nofollow :: nat
  contextualLinks :: "(string \<times> string) list"
  templateLinks :: "(string \<times> string \<times> linkContext) list"
  uniqueContextual :: "string set"
  uniqueTemplate :: "string set"

record anchor =
  href :: string
  rel :: string
  anchorText :: string
  linkContext :: linkContext

definition emptyAnalysis :: linkData where
  "emptyAnalysis = \<lparr>contextual = 0, template = 0, navigation = 0, footer = 0, external = 0,
     nofollow = 0, contextualLinks = [], templateLinks = [],
     uniqueContextual = {}, uniqueTemplate = {}\<rparr>"

definition isInternal :: "string \<Rightarrow> string \<Rightarrow> bool" where
  "isInternal domain h =
     (startsWith h ''/'' \<or> startsWith h ''?''
      \<or> (startsWith h ''http'' \<and> string_includes h domain))"

definition countTemplate :: "linkContext \<Rightarrow> linkData \<Rightarrow> linkData" where
  "countTemplate cx a =
     (case cx of
        Footer \<Rightarrow> a\<lparr>footer := footer a + 1\<rparr>
      | _ \<Rightarrow> a\<lparr>navigation := navigation a + 1\<rparr>)"

definition countLink :: "string \<Rightarrow> linkData \<Rightarrow> anchor \<Rightarrow> linkData" where
  "countLink domain a k =
     (if href k = [] \<or> href k = ''#'' then a
      else if isInternal domain (href k) then
        (let a1 =
           (if linkContext k = Contextual then
              a\<lparr>contextual := contextual a + 1,
                uniqueContextual := insert (href k) (uniqueContextual a),
                contextualLinks := contextualLinks a @ [(anchorText k, href k)]\<rparr>
            else
              (countTemplate (linkContext k) (a\<lparr>template := template a + 1\<rparr>))
                \<lparr>uniqueTemplate := insert (href k) (uniqueTemplate a),
                 templateLinks := templateLinks a @ [(anchorText k, href k, linkContext k)]\<rparr>)
         in if string_includes (rel k) ''nofollow'' \<and> linkContext k = Contextual
            then a1\<lparr>nofollow := nofollow a1 + 1\<rparr> else a1)
      else if startsWith (href k) ''http'' then a\<lparr>external := external a + 1\<rparr>
      else a)"

definition analyzeLinksAdvanced :: "string \<Rightarrow> anchor list \<Rightarrow> linkData" where
  "analyzeLinksAdvanced domain allLinks = foldl (countLink domain) emptyAnalysis allLinks"

text \<open>The link diversity of the report: a percentage, or N/A without contextual links.\<close>

definition calculateLinkDiversity :: "linkData \<Rightarrow> string" where
  "calculateLinkDiversity l =
     (if contextual l = 0 then ''N/A''
      else numberToString
             (Math_round (js_mul (js_div (of_nat (card (uniqueContextual l)))
                                         (of_nat (contextual l))) 100)) @ ''%'')"

text \<open>
  For comparison, the percentage as C10 words it: 100 times the number of distinct targets
  over the number of links, rounded to the nearest integer, a half rounding up, in exact
  arithmetic; and the pairs for which that percentage ends in a half.
\<close>

definition claimed_percent :: "nat \<Rightarrow> nat \<Rightarrow> int" where
  "claimed_percent u c = \<lfloor>100 * of_nat u / (of_nat c :: rat) + 1 / 2\<rfloor>"

definition percent_tie :: "nat \<Rightarrow> nat \<Rightarrow> bool" where
  "percent_tie u c = ((200 * u + c) mod (2 * c) = 0)"

section \<open>linkgap.js: the opportunity score\<close>

text \<open>
  Of the link analysis, the scorer reads the number of contextual links and the size of
  the set of distinct contextual targets.
\<close>

datatype severity = SevNone | SevMedium | SevHigh | SevCritical

record gapAnalysis =
  hasGap :: bool
  severity :: severity
  recommendedLinks :: nat
  currentLinks :: nat

text \<open>
  The score breakdown and the opportunities are lists of formatted messages. A message is
  kept as its kind together with the numbers its template interpolates, a breakdown
  entry ending with the points it announces.
\<close>

datatype breakdown =
    BrokenPage int
  | ThinContentPenalty int
  | ZeroContextualLinks int
  | LinkDeficit nat int
  | LowDensity rat int
  | OverLinking rat int
  | PageTypePriority string int
  | DuplicateLinks int int
  | DeepPage int int

datatype opportunity_note =
    NoteBroken nat
  | NoteThinContent nat
  | NoteCriticalGap nat
  | NoteLinkGap nat nat nat
  | NoteLowDensity rat
  | NoteOverLinked rat
  | NotePageType string
  | NoteDuplicateLinks int nat
  | NoteDeepPage int

text \<open>
  The returned object. While the five factors run, \<open>score\<close> holds the local variable
  \<open>opportunityScore\<close>; the return statement caps it at 100 and keeps the first three
  opportunities.
\<close>

record opportunity =
  score :: int
  scoreBreakdown :: "breakdown list"
  opportunities :: "opportunity_note list"
  gapAnalysis :: gapAnalysis

definition pageTypeWeights :: "(string \<times> nat \<times> int \<times> string) list" where
  "pageTypeWeights =
     [(''homepage'', 4, 20, ''Homepage needs strong internal linking foundation''),
      (''trading-pair'', 3, 15, ''Trading pairs should link to: guides, security, related pairs''),
      (''crypto-specific'', 4, 15, ''Crypto pages should link to: trading, market data, guides, news''),
      (''learn-hub'', 5, 18, ''Educational content needs cross-links to related lessons''),
      (''blog-article'', 3, 12, ''Articles should reference related posts and crypto pages''),
      (''market-data'', 2, 10, ''Market pages should link to trading and crypto info'')]"

definition initialGap :: "linkData \<Rightarrow> gapAnalysis" where
  "initialGap l = \<lparr>hasGap = False, severity = SevNone, recommendedLinks = 0,
                    currentLinks = contextual l\<rparr>"

definition idealLinks :: "contentData \<Rightarrow> nat" where
  "idealLinks c = nat (max 1 (Math_floor (js_div (of_nat (words c)) CONTEXTUAL_LINK_TARGET)))"

definition contextualDensity :: "linkData \<Rightarrow> contentData \<Rightarrow> rat" where
  "contextualDensity l c = js_mul (js_div (of_nat (contextual l)) (of_nat (words c))) 100"

text \<open>1. Gap severity.\<close>

definition gapSeverity :: "linkData \<Rightarrow> contentData \<Rightarrow> opportunity \<Rightarrow> opportunity" where
  "gapSeverity l c r =
     (if contextual l = 0 then
        r\<lparr>score := score r + 40,
          scoreBreakdown := scoreBreakdown r @ [ZeroContextualLinks 40],
          opportunities := opportunities r @ [NoteCriticalGap (words c)],
          gapAnalysis := (gapAnalysis r)\<lparr>hasGap := True, severity := SevCritical\<rparr>\<rparr>
      else if contextual l < idealLinks c then
        (let deficit = idealLinks c - contextual l;
             gapPoints = min 30 (int deficit * 8)
         in r\<lparr>score := score r + gapPoints,
              scoreBreakdown := scoreBreakdown r @ [LinkDeficit deficit gapPoints],
              opportunities := opportunities r @ [NoteLinkGap deficit (contextual l) (idealLinks c)],
              gapAnalysis := (gapAnalysis r)\<lparr>hasGap := True,
                severity := (if 3 \<le> deficit then SevHigh else SevMedium)\<rparr>\<rparr>)
      else r)"

text \<open>2. Density below the minimum, and the over-linking penalty.\<close>

definition lowDensity :: "linkData \<Rightarrow> contentData \<Rightarrow> opportunity \<Rightarrow> opportunity" where
  "lowDensity l c r =
     (if contextualDensity l c < MIN_CONTEXTUAL_DENSITY then
        r\<lparr>score := score r + 15,
          scoreBreakdown := scoreBreakdown r @ [LowDensity (contextualDensity l c) 15],
          opportunities := opportunities r @ [NoteLowDensity (contextualDensity l c)]\<rparr>
      else r)"

definition overLinking :: "linkData \<Rightarrow> contentData \<Rightarrow> opportunity \<Rightarrow> opportunity" where
  "overLinking l c r =
     (if MAX_CONTEXTUAL_DENSITY < contextualDensity l c then
        r\<lparr>score := score r + 20,
          scoreBreakdown := scoreBreakdown r @ [OverLinking (contextualDensity l c) 20],
          opportunities := opportunities r @ [NoteOverLinked (contextualDensity l c)]\<rparr>
      else r)"

text \<open>3. Page type weighting. A page type that is no key of the table adds nothing.\<close>

definition pageTypeWeighting :: "linkData \<Rightarrow> string \<Rightarrow> opportunity \<Rightarrow> opportunity" where
  "pageTypeWeighting l pageType r =
     (case map_of pageTypeWeights pageType of
        None \<Rightarrow> r
      | Some (minLinks, weight, message) \<Rightarrow>
          if contextual l < minLinks then
            r\<lparr>score := score r + weight,
              scoreBreakdown := scoreBreakdown r @ [PageTypePriority pageType weight],
              opportunities := opportunities r @ [NotePageType message]\<rparr>
          else r)"

text \<open>4. Link quality: many links to few distinct targets.\<close>

definition uniqueRatio :: "linkData \<Rightarrow> rat" where
  "uniqueRatio l = js_div (of_nat (card (uniqueContextual l))) (of_nat (max (contextual l) 1))"

definition duplicateLinkIssue :: "linkData \<Rightarrow> bool" where
  "duplicateLinkIssue l = (5 < contextual l \<and> uniqueRatio l < round_double (7 / 10))"

definition linkQuality :: "linkData \<Rightarrow> opportunity \<Rightarrow> opportunity" where
  "linkQuality l r =
     (if duplicateLinkIssue l then
        (let duplicates = int (contextual l) - int (card (uniqueContextual l))
         in r\<lparr>score := score r + 15,
              scoreBreakdown := scoreBreakdown r @ [DuplicateLinks duplicates 15],
              opportunities := opportunities r
                @ [NoteDuplicateLinks duplicates (card (uniqueContextual l))]\<rparr>)
      else r)"

text \<open>5. URL depth.\<close>

definition urlDepthFactor :: "int \<Rightarrow> opportunity \<Rightarrow> opportunity" where
  "urlDepthFactor urlDepth r =
     (if 3 < urlDepth then
        (let depthPoints = min 10 ((urlDepth - 3) * 3)
         in r\<lparr>score := score r + depthPoints,
              scoreBreakdown := scoreBreakdown r @ [DeepPage urlDepth depthPoints],
              opportunities := opportunities r @ [NoteDeepPage urlDepth]\<rparr>)
      else r)"

definition calculateContextualOpportunity ::
    "linkData \<Rightarrow> contentData \<Rightarrow> string \<Rightarrow> int \<Rightarrow> opportunity" where
  "calculateContextualOpportunity l c pageType urlDepth =
     (if words c < 10 then
        \<lparr>score = 90, scoreBreakdown = [BrokenPage 90],
         opportunities = [NoteBroken (words c)],
         gapAnalysis = (initialGap l)\<lparr>hasGap := True, severity := SevCritical\<rparr>\<rparr>
      else if words c < MIN_WORDS_FOR_LINKS then
        \<lparr>score = 50, scoreBreakdown = [ThinContentPenalty 50],
         opportunities = [NoteThinContent (words c)],
         gapAnalysis = (initialGap l)\<lparr>hasGap := True, severity := SevMedium\<rparr>\<rparr>
      else
        (let r0 = \<lparr>score = 0, scoreBreakdown = [], opportunities = [],
                   gapAnalysis = (initialGap l)\<lparr>recommendedLinks := idealLinks c\<rparr>\<rparr>;
             r5 = urlDepthFactor urlDepth
                    (linkQuality l
                      (pageTypeWeighting l pageType
                        (overLinking l c
                          (lowDensity l c
                            (gapSeverity l c r0)))))
         in r5\<lparr>score := min (score r5) 100, opportunities := take 3 (opportunities r5)\<rparr>))"

text \<open>
  C3 speaks of the +15 and the +20 being added to the score. Read on a result: the score
  is the capped total of the points that its breakdown lists, and the breakdown lists the
  low-density entry with its 15 points, or the over-linking entry with its 20 points.
  \<open>density_points\<close> is what the entries of the two density tests contribute to that
  total.
\<close>

fun points :: "breakdown \<Rightarrow> int" where
  "points (BrokenPage p) = p"
| "points (ThinContentPenalty p) = p"
| "points (ZeroContextualLinks p) = p"
| "points (LinkDeficit n p) = p"
| "points (LowDensity x p) = p"
| "points (OverLinking x p) = p"
| "points (PageTypePriority t p) = p"
| "points (DuplicateLinks n p) = p"
| "points (DeepPage n p) = p"

definition breakdown_total :: "opportunity \<Rightarrow> int" where
  "breakdown_total r = sum_list (map points (scoreBreakdown r))"

definition accounted :: "opportunity \<Rightarrow> bool" where
  "accounted r = (score r = min (breakdown_total r) 100)"

fun is_low_density :: "breakdown \<Rightarrow> bool" where
  "is_low_density (LowDensity x p) = (p = 15)"
| "is_low_density b = False"

fun is_over_linking :: "breakdown \<Rightarrow> bool" where
  "is_over_linking (OverLinking x p) = (p = 20)"
| "is_over_linking b = False"

fun density_entry :: "breakdown \<Rightarrow> bool" where
  "density_entry (LowDensity x p) = True"
| "density_entry (OverLinking x p) = True"
| "density_entry b = False"

definition low_density_added :: "opportunity \<Rightarrow> bool" where
  "low_density_added r = (accounted r \<and> list_ex is_low_density (scoreBreakdown r))"

definition over_linking_added :: "opportunity \<Rightarrow> bool" where
  "over_linking_added r = (accounted r \<and> list_ex is_over_linking (scoreBreakdown r))"

definition density_points :: "opportunity \<Rightarrow> int" where
  "density_points r = sum_list (map points (filter density_entry (scoreBreakdown r)))"

text \<open>
  The running score after the factors 1, 3, 4 and 5 alone, the two tests of the density
  left out: what the score is made of besides the density bonuses.
\<close>

definition otherFactors :: "linkData \<Rightarrow> contentData \<Rightarrow> string \<Rightarrow> int \<Rightarrow> int" where
  "otherFactors l c pageType urlDepth =
     score (urlDepthFactor urlDepth
             (linkQuality l
               (pageTypeWeighting l pageType
                 (gapSeverity l c
                   \<lparr>score = 0, scoreBreakdown = [], opportunities = [],
                    gapAnalysis = (initialGap l)\<lparr>recommendedLinks := idealLinks c\<rparr>\<rparr>))))"

section \<open>vector.js: repair of stored embedding strings\<close>

text \<open>
  \<open>cleanupMalformedData\<close> applies four pattern replacements and \<open>trim\<close>. Each pattern
  is written as the function that removes its matches. None of them leaves a choice to
  backtracking: an optional character is never the first character of what follows it,
  and a run of white space is followed by a quote.
\<close>

definition optional :: "char \<Rightarrow> string \<Rightarrow> string" where
  "optional c s = (case s of [] \<Rightarrow> [] | x # xs \<Rightarrow> if x = c then xs else s)"

definition literal :: "string \<Rightarrow> string \<Rightarrow> string option" where
  "literal p s = (if startsWith s p then Some (drop (length p) s) else None)"

text \<open>
  The first pattern is anchored at the start and is twice the sequence: an optional
  opening bracket, an optional opening brace, the quoted key with its colon, white space,
  a quote. \<open>embeddingKey\<close> consumes one such sequence.
\<close>

definition embeddingKey :: "string \<Rightarrow> string option" where
  \<open>embeddingKey s =
     (case literal ''"embedding":'' (optional CHR ''{'' (optional CHR ''['' s)) of
        None \<Rightarrow> None
      | Some r \<Rightarrow> literal ''"'' (dropWhile isWhiteSpace r))\<close>

definition stripNestedPrefix :: "string \<Rightarrow> string" where
  "stripNestedPrefix s =
     (case embeddingKey s of
        None \<Rightarrow> s
      | Some r \<Rightarrow> (case embeddingKey r of None \<Rightarrow> s | Some t \<Rightarrow> t))"

text \<open>
  The second pattern: a quote, an optional comma, the quoted word method and the rest of
  the input, which the dot matches only when no line terminator is left. The leftmost
  match is removed, and it reaches the end of the input.
\<close>

definition methodSuffix :: "string \<Rightarrow> bool" where
  \<open>methodSuffix s =
     (case literal ''"'' s of
        None \<Rightarrow> False
      | Some r \<Rightarrow>
          (case literal ''"method"'' (optional CHR '','' r) of
             None \<Rightarrow> False
           | Some t \<Rightarrow> \<not> list_ex isLineTerminator t))\<close>

fun stripMethodSuffix :: "string \<Rightarrow> string" where
  "stripMethodSuffix [] = []"
| "stripMethodSuffix (x # xs) =
     (if methodSuffix (x # xs) then [] else x # stripMethodSuffix xs)"

text \<open>
  The third and fourth patterns remove one character at the start and one at the end: an
  opening and a closing bracket, then a quote at either end.
\<close>

definition stripTrailing :: "char \<Rightarrow> string \<Rightarrow> string" where
  "stripTrailing c s = (if s \<noteq> [] \<and> last s = c then butlast s else s)"

definition stripBrackets :: "string \<Rightarrow> string" where
  "stripBrackets s = stripTrailing CHR '']'' (optional CHR ''['' s)"

definition stripQuotes :: "string \<Rightarrow> string" where
  "stripQuotes s = stripTrailing CHR 0x22 (optional CHR 0x22 s)"

datatype js_value = JsString string | JsNotString

fun cleanupMalformedData :: "js_value \<Rightarrow> js_value" where
  "cleanupMalformedData (JsString rawData) =
     JsString (trim (stripQuotes (stripBrackets (stripMethodSuffix (stripNestedPrefix rawData)))))"
| "cleanupMalformedData JsNotString = JsNotString"

text \<open>
  The validating pattern spans the whole input: numbers separated by commas, a number
  being an optional minus sign, digits, and optionally a point and digits. It is written
  as the automaton that reads the input once.
\<close>

datatype grammar_state = NumberStart | AfterSign | IntegerPart | AfterPoint | FractionPart

fun accepts :: "grammar_state \<Rightarrow> string \<Rightarrow> bool" where
  "accepts st [] = (st = IntegerPart \<or> st = FractionPart)"
| "accepts NumberStart (c # cs) =
     (if c = CHR ''-'' then accepts AfterSign cs
      else if isDigit c then accepts IntegerPart cs else False)"
| "accepts AfterSign (c # cs) = (if isDigit c then accepts IntegerPart cs else False)"
| "accepts IntegerPart (c # cs) =
     (if isDigit c then accepts IntegerPart cs
      else if c = CHR ''.'' then accepts AfterPoint cs
      else if c = CHR '','' then accepts NumberStart cs else False)"
| "accepts AfterPoint (c # cs) = (if isDigit c then accepts FractionPart cs else False)"
| "accepts FractionPart (c # cs) =
     (if isDigit c then accepts FractionPart cs
      else if c = CHR '','' then accepts NumberStart cs else False)"

definition embeddingGrammar :: "string \<Rightarrow> bool" where
  "embeddingGrammar s = accepts NumberStart s"

text \<open>\<open>cleanupExistingData\<close> returns a string, or \<open>null\<close>, which is \<open>None\<close>.\<close>

fun cleanupExistingData :: "js_value \<Rightarrow> string option" where
  \<open>cleanupExistingData (JsString embeddingValue) =
     (if string_includes embeddingValue ''{"embedding":'' then
        (case cleanupMalformedData (JsString embeddingValue) of
           JsString cleanValue \<Rightarrow>
             if cleanValue \<noteq> [] \<and> embeddingGrammar cleanValue then Some cleanValue else None
         | JsNotString \<Rightarrow> None)
      else Some embeddingValue)\<close>
| "cleanupExistingData JsNotString = None"

text \<open>The characters of strings that the validating pattern accepts.\<close>

definition numeric_char :: "char \<Rightarrow> bool" where
  "numeric_char c = (isDigit c \<or> c = CHR ''.'' \<or> c = CHR '','' \<or> c = CHR ''-'')"

section \<open>vector.js: the fallback embedding\<close>

text \<open>
  The rolling hash. \<open>hash << 5\<close> is a 32-bit shift; the subtraction and the addition
  that follow are exact, their operands being below \<open>2 ^ 37\<close>; \<open>hash & hash\<close> then
  reduces the sum to 32 bits. That is arithmetic on 32-bit words, and the number the loop
  leaves in \<open>hash\<close> is the signed reading of the word.
\<close>

definition hashStep :: "32 word \<Rightarrow> char \<Rightarrow> 32 word" where
  "hashStep hash c = (let h = (push_bit 5 hash - hash) + of_nat (of_char c) in h AND h)"

definition seedHash :: "string \<Rightarrow> int" where
  "seedHash seed = sint (foldl hashStep 0 seed)"

text \<open>
  The quotient of the hash by a million is a binary64 number. \<open>Math.sin\<close> is left to
  the implementation by the language, and the exact sine stands for it; halving is
  exact. The component is then formatted with six decimals, a tie going away from zero,
  and \<open>toFixed6\<close> is the decimal that the string denotes.
\<close>

definition toFixed6 :: "real \<Rightarrow> rat" where
  "toFixed6 x = (if x < 0 then - 1 else 1) * of_int \<lfloor>\<bar>x\<bar> * 10 ^ 6 + 1 / 2\<rfloor> / 10 ^ 6"

definition embeddingComponent :: "string \<Rightarrow> nat \<Rightarrow> rat" where
  "embeddingComponent normalized i =
     toFixed6 (sin (of_rat (js_div (of_int (seedHash (normalized @ toString i))) 1000000))
               * (1 / 2))"

definition generateSimpleEmbedding :: "string \<Rightarrow> nat \<Rightarrow> rat list" where
  "generateSimpleEmbedding text_in dimensions =
     map (embeddingComponent (trim (toLowerCase text_in))) [0..<dimensions]"

section \<open>semantic.js: cosine similarity\<close>

text \<open>
  The method works on binary64 numbers. An element of a vector is converted to a number
  when it is multiplied, a string of decimals becoming the nearest binary64 value, a
  number staying what it is; every product, sum and quotient is rounded, and so is the
  square root, to the binary64 value nearest to the exact root. The quotient is a number,
  an infinity, or not a number when zero is divided by zero. Unequal lengths raise an
  error. The counter of calls that the method increments first is no part of its result.
\<close>

definition js_add :: "rat \<Rightarrow> rat \<Rightarrow> rat" where
  "js_add a b = round_double (a + b)"

text \<open>The whole part of the square root of an integer from 0 to below \<open>2 ^ 106\<close>, bit by
  bit from bit 52 down; \<open>b\<close> is the value of the bit that is tried.\<close>

fun sqrt_search :: "int \<Rightarrow> nat \<Rightarrow> int \<Rightarrow> int \<Rightarrow> int" where
  "sqrt_search n 0 b r = r"
| "sqrt_search n (Suc k) b r =
     (if (r + b) * (r + b) \<le> n then sqrt_search n k (b div 2) (r + b)
      else sqrt_search n k (b div 2) r)"

definition floor_sqrt :: "int \<Rightarrow> int" where
  "floor_sqrt n = sqrt_search n 53 (2 ^ 52) 0"

text \<open>
  \<open>Math.sqrt\<close> of a number that is not negative. The root of a number in the binade
  \<open>e\<close> lies in the binade \<open>e div 2\<close>; with \<open>ulp\<close> the distance of neighbours there,
  the root over \<open>ulp\<close> has the whole part \<open>f\<close>, and it is below, above or at
  \<open>f + 1 / 2\<close> as \<open>4 * y\<close> is to the square of \<open>2 * f + 1\<close>.
\<close>

definition js_sqrt :: "rat \<Rightarrow> rat" where
  "js_sqrt x =
     (if x = 0 then 0
      else let ulp = pow2 (binade x div 2 - 52);
               y = x / (ulp * ulp);
               f = floor_sqrt \<lfloor>y\<rfloor>;
               n = (if 4 * y < of_int ((2 * f + 1) * (2 * f + 1)) then f
                    else if of_int ((2 * f + 1) * (2 * f + 1)) < 4 * y then f + 1
                    else if even f then f else f + 1)
           in of_int n * ulp)"

datatype js_number = Finite rat | PositiveInfinity | NegativeInfinity | NaN

datatype error = DimensionMismatch

definition js_divide :: "rat \<Rightarrow> rat \<Rightarrow> js_number" where
  "js_divide x y =
     (if y \<noteq> 0 then Finite (js_div x y)
      else if x = 0 then NaN
      else if 0 < x then PositiveInfinity else NegativeInfinity)"

definition accumulate :: "rat \<times> rat \<times> rat \<Rightarrow> rat \<times> rat \<Rightarrow> rat \<times> rat \<times> rat" where
  "accumulate acc ab =
     (case acc of (dotProduct, normA, normB) \<Rightarrow>
        (case ab of (a, b) \<Rightarrow>
           (js_add dotProduct (js_mul (round_double a) (round_double b)),
            js_add normA (js_mul (round_double a) (round_double a)),
            js_add normB (js_mul (round_double b) (round_double b)))))"

definition cosineSimilarity :: "rat list \<Rightarrow> rat list \<Rightarrow> error + js_number" where
  "cosineSimilarity vecA vecB =
     (if length vecA \<noteq> length vecB then Inl DimensionMismatch
      else (case foldl accumulate (0, 0, 0) (zip vecA vecB) of
              (dotProduct, normA, normB) \<Rightarrow>
                Inr (js_divide dotProduct (js_mul (js_sqrt normA) (js_sqrt normB)))))"

section \<open>Example pages\<close>

text \<open>
  A page of 400 words without a contextual link, a page of five words, a page of 30
  words, a page of 100 words with ten contextual links to ten targets, and a page whose
  40 contextual links lead to 23 distinct targets.
\<close>

definition page400 :: contentData where
  "page400 = \<lparr>words = 400, headings = 3, paragraphs = 6, list_count = 0, quality = Medium\<rparr>"

definition page5 :: contentData where
  "page5 = \<lparr>words = 5, headings = 0, paragraphs = 1, list_count = 0, quality = Thin\<rparr>"

definition page30 :: contentData where
  "page30 = \<lparr>words = 30, headings = 1, paragraphs = 2, list_count = 0, quality = Thin\<rparr>"

definition page100 :: contentData where
  "page100 = \<lparr>words = 100, headings = 1, paragraphs = 3, list_count = 0, quality = Thin\<rparr>"

definition noLinks :: linkData where
  "noLinks = emptyAnalysis\<lparr>template := 12, navigation := 9, footer := 3, external := 2,
     uniqueTemplate := {''/'', ''/about''}\<rparr>"

definition tenLinks :: linkData where
  "tenLinks = emptyAnalysis\<lparr>contextual := 10,
     uniqueContextual := set (map (\<lambda>i. ''/p'' @ toString i) [0..<10])\<rparr>"

definition fortyLinks :: linkData where
  "fortyLinks = emptyAnalysis\<lparr>contextual := 40,
     uniqueContextual := set (map (\<lambda>i. ''/p'' @ toString i) [0..<23])\<rparr>"

text \<open>Eight contextual links to four targets.\<close>

definition eightLinks :: linkData where
  "eightLinks = emptyAnalysis\<lparr>contextual := 8,
     uniqueContextual := set (map (\<lambda>i. ''/p'' @ toString i) [0..<4])\<rparr>"

text \<open>A share link to another host that carries the address of the page in its query.\<close>

definition shareLink :: anchor where
  "shareLink = \<lparr>href = ''https://twitter.com/share?url=https://example.com/page'',
     rel = [], anchorText = ''Share'', linkContext = Contextual\<rparr>"

text \<open>A link to a page of the same host, the host written in capitals.\<close>

definition capitalLink :: anchor where
  "capitalLink = \<lparr>href = ''https://EXAMPLE.COM/pricing'',
     rel = [], anchorText = ''Pricing'', linkContext = Contextual\<rparr>"

section \<open>Rounding to binary64\<close>

text \<open>
  \<open>binade\<close> finds the power of two at or below a positive number, so \<open>round_double\<close>
  moves a number by at most half the distance between neighbouring binary64 values, that
  is by at most the fraction \<open>2 ^ - 53\<close> of the number, and it leaves every natural
  number below \<open>2 ^ 53\<close> as it is.
\<close>

lemma pow2_power_int: "pow2 e = power_int 2 e"
  by (simp add: pow2_def power_int_def power_inverse inverse_eq_divide power_one_over)

lemma pow2_pos: "0 < pow2 e"
  by (simp add: pow2_power_int)

lemma pow2_add: "pow2 (a + b) = pow2 a * pow2 b"
  by (simp add: pow2_power_int power_int_add)

lemma pow2_mono: "a \<le> b \<Longrightarrow> pow2 a \<le> pow2 b"
  by (simp add: pow2_power_int power_int_increasing)

lemma pow2_nat: "pow2 (int n) = 2 ^ n"
  by (simp add: pow2_def)

lemma binade_bounds:
  assumes "0 < x"
  shows "pow2 (binade x) \<le> x \<and> x < pow2 (binade x + 1)"
proof (cases "1 \<le> x")
  case True
  define n where "n = nat \<lfloor>x\<rfloor>"
  define L where "L = floorlog 2 n"
  from True have n1: "1 \<le> n" unfolding n_def by (simp add: le_nat_iff)
  then have fb: "2 ^ (L - 1) \<le> n" "n < 2 ^ L"
    using floorlog_bounds [of n 2] by (simp_all add: L_def)
  from fb(2) n1 have L1: "1 \<le> L" by (cases L) simp_all
  have nx: "of_nat n \<le> x" "x < of_nat n + 1"
    using True unfolding n_def by (simp_all add: of_nat_nat) linarith+
  have b: "binade x = int (L - 1)"
    using True L1 by (simp add: binade_def L_def n_def of_nat_diff)
  have "pow2 (binade x) = 2 ^ (L - 1)" by (simp add: b pow2_nat)
  also have "\<dots> \<le> of_nat n" using fb(1) by (metis of_nat_le_iff of_nat_numeral of_nat_power)
  finally have lo: "pow2 (binade x) \<le> x" using nx(1) by simp
  have "binade x + 1 = int L" using b L1 by simp
  then have "pow2 (binade x + 1) = 2 ^ L" by (simp add: pow2_nat)
  moreover have "(of_nat (n + 1) :: rat) \<le> 2 ^ L"
    using fb(2) by (metis Suc_eq_plus1 Suc_leI of_nat_le_iff of_nat_numeral of_nat_power)
  ultimately have "x < pow2 (binade x + 1)" using nx(2) by simp
  with lo show ?thesis by simp
next
  case False
  define y where "y = 1 / x"
  define M where "M = nat (\<lceil>y\<rceil> - 1)"
  define L where "L = floorlog 2 M"
  from False assms have y1: "1 < y" by (simp add: y_def)
  then have c2: "2 \<le> \<lceil>y\<rceil>" by (simp add: le_ceiling_iff) 
  then have M1: "1 \<le> M" unfolding M_def by arith
  then have fb: "2 ^ (L - 1) \<le> M" "M < 2 ^ L"
    using floorlog_bounds [of M 2] by (simp_all add: L_def)
  from fb(2) M1 have L1: "1 \<le> L" by (cases L) simp_all
  have My: "of_nat M < y" "y \<le> of_nat M + 1"
    using c2 unfolding M_def by (simp_all add: of_nat_nat) linarith+
  have b: "binade x = - int L"
    using False by (simp add: binade_def L_def M_def y_def)
  have "y \<le> of_nat (M + 1)" using My(2) by simp
  also have "(of_nat (M + 1) :: rat) \<le> 2 ^ L"
    using fb(2) by (metis Suc_eq_plus1 Suc_leI of_nat_le_iff of_nat_numeral of_nat_power)
  finally have "y \<le> 2 ^ L" .
  then have "1 / 2 ^ L \<le> 1 / y" using y1 by (simp add: frac_le)
  then have lo: "pow2 (binade x) \<le> x"
    using assms L1 by (simp add: b pow2_def y_def)
  have "(2 ^ (L - 1) :: rat) \<le> of_nat M"
    using fb(1) by (metis of_nat_le_iff of_nat_numeral of_nat_power)
  with My(1) have "2 ^ (L - 1) < y" by linarith
  then have "1 / y < 1 / 2 ^ (L - 1)" by (simp add: frac_less2)
  moreover have "pow2 (binade x + 1) = 1 / 2 ^ (L - 1)"
    using L1 by (simp add: b pow2_def nat_diff_distrib')
  ultimately have "x < pow2 (binade x + 1)" using assms by (simp add: y_def)
  with lo show ?thesis by simp
qed

lemma round_half_even_error: "\<bar>of_int (round_half_even m) - m\<bar> \<le> 1 / 2"
proof -
  have a: "of_int \<lfloor>m\<rfloor> \<le> m" and b: "m < of_int \<lfloor>m\<rfloor> + 1"
    by linarith+
  consider "m - of_int \<lfloor>m\<rfloor> < 1 / 2" | "1 / 2 < m - of_int \<lfloor>m\<rfloor>"
    | "m - of_int \<lfloor>m\<rfloor> = 1 / 2"
    by linarith
  then show ?thesis
  proof cases
    case 1
    then have "round_half_even m = \<lfloor>m\<rfloor>"
      by (simp add: round_half_even_def Let_def)
    with 1 a show ?thesis by simp
  next
    case 2
    then have "round_half_even m = \<lfloor>m\<rfloor> + 1"
      by (simp add: round_half_even_def Let_def)
    with 2 b show ?thesis by simp
  next
    case 3
    then have "round_half_even m = \<lfloor>m\<rfloor> \<or> round_half_even m = \<lfloor>m\<rfloor> + 1"
      by (simp add: round_half_even_def Let_def)
    with 3 show ?thesis by auto
  qed
qed

lemma round_half_even_int: "round_half_even (of_int k) = k"
  by (simp add: round_half_even_def)

lemma round_double_error:
  assumes "x \<noteq> 0"
  shows "\<bar>round_double x - x\<bar> \<le> pow2 (binade \<bar>x\<bar> - 53)"
proof -
  define u where "u = pow2 (binade \<bar>x\<bar> - 52)"
  define n where "n = round_half_even (\<bar>x\<bar> / u)"
  have u0: "0 < u" by (simp add: u_def pow2_pos)
  have r: "round_double x = sgn x * of_int n * u"
    using assms by (simp add: round_double_def Let_def u_def n_def)
  have "round_double x - x = sgn x * (of_int n * u - \<bar>x\<bar>)"
    using mult_sgn_abs [of x] by (simp add: r right_diff_distrib mult.assoc)
  then have "\<bar>round_double x - x\<bar> = \<bar>sgn x * (of_int n * u - \<bar>x\<bar>)\<bar>"
    by simp
  also have "\<dots> = \<bar>of_int n * u - \<bar>x\<bar>\<bar>"
    using assms by (simp add: abs_mult abs_sgn_eq)
  also have "\<dots> = \<bar>(of_int n - \<bar>x\<bar> / u) * u\<bar>"
    using u0 by (simp add: left_diff_distrib)
  also have "\<dots> = \<bar>of_int n - \<bar>x\<bar> / u\<bar> * u"
    using u0 by (simp add: abs_mult)
  also have "\<dots> \<le> 1 / 2 * u"
    using round_half_even_error [of "\<bar>x\<bar> / u"] u0 unfolding n_def
    by (intro mult_right_mono) simp_all
  also have "\<dots> = pow2 (binade \<bar>x\<bar> - 53)"
    using pow2_add [of "binade \<bar>x\<bar> - 53" 1] by (simp add: u_def pow2_def)
  finally show ?thesis .
qed

lemma round_double_exact:
  assumes "x \<noteq> 0" and "\<bar>x\<bar> / pow2 (binade \<bar>x\<bar> - 52) = of_int k"
  shows "round_double x = x"
proof -
  have u0: "pow2 (binade \<bar>x\<bar> - 52) \<noteq> 0" using pow2_pos [of "binade \<bar>x\<bar> - 52"] by simp
  from assms(2) u0 have "of_int k * pow2 (binade \<bar>x\<bar> - 52) = \<bar>x\<bar>"
    by (simp add: field_simps)
  then show ?thesis
    using assms mult_sgn_abs [of x]
    by (simp add: round_double_def Let_def round_half_even_int mult.assoc)
qed

lemma binade_le:
  assumes "0 < x" and "x < pow2 e"
  shows "binade x < e"
proof (rule ccontr)
  assume "\<not> binade x < e"
  then have "pow2 e \<le> pow2 (binade x)" by (simp add: pow2_mono)
  with binade_bounds [OF assms(1)] assms(2) show False by simp
qed

lemma binade_ge:
  assumes "pow2 e \<le> x"
  shows "e \<le> binade x"
proof (rule ccontr)
  assume "\<not> e \<le> binade x"
  then have "pow2 (binade x + 1) \<le> pow2 e" by (simp add: pow2_mono)
  moreover have "0 < x" using assms pow2_pos [of e] by simp
  ultimately show False using binade_bounds [of x] assms by simp
qed

lemma round_double_of_nat:
  assumes "n < 2 ^ 53"
  shows "round_double (of_nat n) = of_nat n"
proof (cases "n = 0")
  case True
  then show ?thesis by (simp add: round_double_def)
next
  case False
  define x :: rat where "x = of_nat n"
  have x0: "0 < x" using False by (simp add: x_def)
  have "x < 2 ^ 53" using assms unfolding x_def
    by (metis of_nat_less_iff of_nat_numeral of_nat_power)
  then have "x < pow2 53" by (simp add: pow2_def)
  with x0 have e: "binade x < 53" by (rule binade_le)
  have e0: "0 \<le> binade x" using x0 False binade_ge [of 0 x] by (simp add: pow2_def x_def)
  define j where "j = nat (52 - binade x)"
  have "pow2 (binade x - 52) * pow2 (int j) = pow2 0"
    using e unfolding j_def by (subst pow2_add [symmetric]) simp
  then have "x / pow2 (binade x - 52) = x * 2 ^ j"
    using pow2_pos [of "binade x - 52"] by (simp add: pow2_nat field_simps pow2_def)
  also have "\<dots> = of_int (int (n * 2 ^ j))" by (simp add: x_def)
  finally have ex: "\<bar>x\<bar> / pow2 (binade \<bar>x\<bar> - 52) = of_int (int (n * 2 ^ j))"
    using x0 by simp
  from x0 have "x \<noteq> 0" by simp
  from this ex have "round_double x = x" by (rule round_double_exact)
  then show ?thesis by (simp add: x_def)
qed

lemma floor_round_double_div100:
  assumes "w < 2 ^ 32"
  shows "\<lfloor>round_double (of_nat w / 100)\<rfloor> = int (w div 100)"
proof (cases "w mod 100 = 0")
  case True
  then have "(of_nat w :: rat) = of_nat (w div 100) * 100"
    by (metis mod_0_imp_dvd dvd_div_mult_self of_nat_mult of_nat_numeral)
  then have q: "(of_nat w :: rat) / 100 = of_nat (w div 100)" by simp
  have "w div 100 < 2 ^ 53" using assms by simp
  then show ?thesis by (simp add: q round_double_of_nat)
next
  case False
  define q :: rat where "q = of_nat w / 100"
  define k where "k = w div 100"
  have w: "w = 100 * k + w mod 100" by (simp add: k_def)
  have r: "1 \<le> w mod 100" "w mod 100 \<le> 99" using False by simp_all
  have "(of_nat w :: rat) = 100 * of_nat k + of_nat (w mod 100)"
    by (metis w of_nat_add of_nat_mult of_nat_numeral)
  then have qk: "q = of_nat k + of_nat (w mod 100) / 100" by (simp add: q_def)
  have "(1 :: rat) \<le> of_nat (w mod 100)" "(of_nat (w mod 100) :: rat) \<le> 99"
    using r by (simp_all del: of_nat_mod)
  with qk have lo: "of_nat k + 1 / 100 \<le> q" and hi: "q \<le> of_nat k + 99 / 100"
    by simp_all
  have q0: "0 < q" using lo by (simp add: add_pos_nonneg)
  have "(of_nat w :: rat) < 2 ^ 32" using assms
    by (metis of_nat_less_iff of_nat_numeral of_nat_power)
  then have "q < pow2 32" by (simp add: q_def pow2_def)
  with q0 have "binade q < 32" by (rule binade_le)
  then have "pow2 (binade \<bar>q\<bar> - 53) \<le> pow2 (- 22)"
    using q0 by (intro pow2_mono) simp
  also have "\<dots> < 1 / 100" by (simp add: pow2_def)
  finally have "\<bar>round_double q - q\<bar> < 1 / 100"
    using round_double_error [of q] q0 by simp
  with lo hi have "of_nat k < round_double q" "round_double q < of_nat k + 1"
    by linarith+
  then have "\<lfloor>round_double q\<rfloor> = int k"
    by (intro floor_unique) simp_all
  then show ?thesis by (simp add: q_def k_def)
qed

lemma round_double_rel_error:
  assumes "0 < x"
  shows "\<bar>round_double x - x\<bar> \<le> x * pow2 (- 53)"
proof -
  have "\<bar>round_double x - x\<bar> \<le> pow2 (binade \<bar>x\<bar> - 53)"
    using assms by (intro round_double_error) simp
  also have "\<dots> = pow2 (binade x) * pow2 (- 53)"
    using assms pow2_add [of "binade x" "- 53"] by simp
  also have "\<dots> \<le> x * pow2 (- 53)"
    using binade_bounds [OF assms] pow2_pos [of "- 53"] by (intro mult_right_mono) simp_all
  finally show ?thesis .
qed

lemma percent_error:
  assumes "0 < c" and "u < 2 ^ 32"
  shows "\<bar>js_mul (js_div (of_nat u) (of_nat c)) 100 - 100 * of_nat u / of_nat c\<bar> * (2 * of_nat c) < 1 / 2 ^ 10"
proof (cases "u = 0")
  case True
  then show ?thesis by (simp add: js_mul_def js_div_def round_double_def)
next
  case False
  define q :: rat where "q = of_nat u / of_nat c"
  define q1 where "q1 = round_double q"
  define p1 where "p1 = round_double (q1 * 100)"
  define e :: rat where "e = pow2 (- 53)"
  have e: "e = 1 / 2 ^ 53" by (simp add: e_def pow2_def)
  have q0: "0 < q" using False assms by (simp add: q_def)
  have d1: "\<bar>q1 - q\<bar> \<le> q * e"
    unfolding q1_def e_def using q0 by (rule round_double_rel_error)
  have q1_hi: "q1 \<le> q * (1 + e)" using d1 by (simp add: algebra_simps abs_le_iff)
  have q1_lo: "q * (1 - e) \<le> q1" using d1 by (simp add: algebra_simps abs_le_iff)
  have "0 < q * (1 - e)" using q0 by (simp add: e)
  with q1_lo have q10: "0 < q1 * 100" by simp
  have d2: "\<bar>p1 - q1 * 100\<bar> \<le> q1 * 100 * e"
    unfolding p1_def e_def using q10 by (rule round_double_rel_error)
  have "p1 - 100 * q = (p1 - q1 * 100) + 100 * (q1 - q)" by simp
  then have "\<bar>p1 - 100 * q\<bar> \<le> \<bar>p1 - q1 * 100\<bar> + \<bar>100 * (q1 - q)\<bar>"
    by (simp only: abs_triangle_ineq)
  also have "\<dots> = \<bar>p1 - q1 * 100\<bar> + 100 * \<bar>q1 - q\<bar>"
    by (simp only: abs_mult abs_numeral)
  also have "\<dots> \<le> q1 * 100 * e + 100 * (q * e)" using d1 d2 by simp
  also have "\<dots> \<le> q * (1 + e) * 100 * e + 100 * (q * e)"
    using q1_hi by (simp add: e)
  also have "\<dots> = q * (100 * e * (2 + e))" by (simp add: algebra_simps)
  finally have b: "\<bar>p1 - 100 * q\<bar> \<le> q * (100 * e * (2 + e))" .
  have c0: "(0 :: rat) < 2 * of_nat c" using assms by simp
  have "\<bar>p1 - 100 * q\<bar> * (2 * of_nat c) \<le> q * (100 * e * (2 + e)) * (2 * of_nat c)"
    using b c0 by (intro mult_right_mono) simp_all
  also have "\<dots> = of_nat u * (200 * e * (2 + e))"
    using assms by (simp add: q_def)
  also have "\<dots> \<le> 2 ^ 32 * (200 * e * (2 + e))"
  proof -
    have "(of_nat u :: rat) \<le> 2 ^ 32" using assms(2)
      by (metis less_imp_le of_nat_le_iff of_nat_numeral of_nat_power)
    then show ?thesis by (intro mult_right_mono) (simp_all add: e)
  qed
  also have "\<dots> < 1 / 2 ^ 10" by (simp add: e)
  finally show ?thesis
    by (simp add: js_mul_def js_div_def p1_def q1_def q_def)
qed

lemma floor_from_scaled:
  fixes x D :: rat
  assumes "0 < D" and "of_int z * D \<le> x * D" and "x * D < of_int z * D + D"
  shows "\<lfloor>x\<rfloor> = z"
proof -
  from assms(1,2) have lo: "of_int z \<le> x" by (simp add: mult_le_cancel_right)
  have "of_int z * D + D = (of_int z + 1) * D" by (simp add: distrib_right)
  with assms(3) have "x * D < (of_int z + 1) * D" by simp
  with assms(1) have "x < of_int z + 1" by (simp add: mult_less_cancel_right)
  with lo show ?thesis by (intro floor_unique)
qed

lemma percent_round:
  assumes "0 < c" and "u < 2 ^ 32"
  defines "P \<equiv> Math_round (js_mul (js_div (of_nat u) (of_nat c)) 100)"
    and "R \<equiv> int ((200 * u + c) div (2 * c))"
  shows "P = R \<or> ((200 * u + c) mod (2 * c) = 0 \<and> P = R - 1)"
proof -
  define D :: rat where "D = 2 * of_nat c"
  define f where "f = (200 * u + c) mod (2 * c)"
  define x where "x = js_mul (js_div (of_nat u) (of_nat c)) 100 + 1 / 2"
  define d where "d = (js_mul (js_div (of_nat u) (of_nat c)) 100 - 100 * of_nat u / of_nat c) * D"
  have D0: "0 < D" using assms(1) by (simp add: D_def)
  have d: "\<bar>d\<bar> < 1 / 2 ^ 10"
    using percent_error [OF assms(1,2)] D0 by (simp add: d_def D_def abs_mult)
  have "200 * u + c = 2 * c * ((200 * u + c) div (2 * c)) + f"
    by (simp add: f_def)
  then have "int (200 * u + c) = int (2 * c) * R + int f"
    unfolding R_def by (metis of_nat_add of_nat_mult)
  then have "(of_int (int (200 * u + c)) :: rat) = of_int (int (2 * c) * R + int f)"
    by simp
  then have N: "200 * of_nat u + of_nat c = D * of_int R + of_nat f"
    by (simp add: D_def)
  have xD: "x * D = D * of_int R + of_nat f + d"
  proof -
    have "x * D = d + (100 * of_nat u / of_nat c + 1 / 2) * D"
      by (simp add: x_def d_def algebra_simps)
    also have "(100 * of_nat u / of_nat c + 1 / 2) * D = 200 * of_nat u + of_nat c"
      using assms(1) by (simp add: D_def field_simps)
    finally show ?thesis using N by simp
  qed
  have fD: "of_nat f + 1 \<le> D"
  proof -
    have "f < 2 * c" using assms(1) by (simp add: f_def)
    then have "f + 1 \<le> 2 * c" by simp
    then have "(of_nat (f + 1) :: rat) \<le> of_nat (2 * c)" by (simp only: of_nat_le_iff)
    then show ?thesis by (simp add: D_def)
  qed
  have P: "P = \<lfloor>x\<rfloor>" by (simp add: P_def Math_round_def x_def)
  have dl: "- 1 < d" "d < 1"
    using d by (simp_all add: abs_less_iff)
  have xD': "x * D = of_int R * D + of_nat f + d"
    using xD by (simp only: mult.commute)
  show ?thesis
  proof (cases "f = 0")
    case False
    then have "(1 :: rat) \<le> of_nat f" by simp
    with dl fD have "of_int R * D \<le> x * D" "x * D < of_int R * D + D"
      unfolding xD' by linarith+
    with D0 have "\<lfloor>x\<rfloor> = R" by (rule floor_from_scaled)
    with P show ?thesis by simp
  next
    case True
    then have x0: "x * D = of_int R * D + d" using xD' by simp
    have D1: "1 \<le> D" using fD by simp
    show ?thesis
    proof (cases "0 \<le> d")
      case True
      with dl D1 have "of_int R * D \<le> x * D" "x * D < of_int R * D + D"
        unfolding x0 by linarith+
      with D0 have "\<lfloor>x\<rfloor> = R" by (rule floor_from_scaled)
      with P show ?thesis by simp
    next
      case False
      have "of_int (R - 1) * D = of_int R * D - D" by (simp add: left_diff_distrib)
      with False dl D1 have "of_int (R - 1) * D \<le> x * D" "x * D < of_int (R - 1) * D + D"
        unfolding x0 by linarith+
      with D0 have "\<lfloor>x\<rfloor> = R - 1" by (rule floor_from_scaled)
      with P \<open>f = 0\<close> show ?thesis by (simp add: f_def)
    qed
  qed
qed

section \<open>Content quality is monotone in the word count\<close>

lemma classify_words_mono:
  "w1 \<le> w2 \<Longrightarrow> quality_rank (classify_words w1) \<le> quality_rank (classify_words w2)"
  by (simp add: classify_words_def THIN_CONTENT_THRESHOLD_def MEDIUM_CONTENT_THRESHOLD_def)

lemma adjust_mono:
  "quality_rank q1 \<le> quality_rank q2 \<Longrightarrow>
   quality_rank (demote h (promote h p q1)) \<le> quality_rank (demote h (promote h p q2))"
  by (cases q1; cases q2) (simp_all add: demote_def promote_def)

text \<open>
  C8. With the same heading and paragraph counts, more words never give a lower quality in
  the order thin, medium, high, the promotion of medium content with at least 3 headings
  and 4 paragraphs and the demotion of high content with fewer than 2 headings included.
\<close>

theorem quality_monotone:
  assumes "w1 < w2"
  shows "quality_rank (quality (analyzeContentElement w1 h p l1))
         \<le> quality_rank (quality (analyzeContentElement w2 h p l2))"
proof -
  from assms have "w1 \<le> w2" by simp
  then have "quality_rank (classify_words w1) \<le> quality_rank (classify_words w2)"
    by (rule classify_words_mono)
  then show ?thesis
    by (simp add: analyzeContentElement_def adjust_mono)
qed

theorem quality_monotone_witness:
  "(299::nat) < 300
   \<and> quality (analyzeContentElement 299 3 4 0) = Thin
   \<and> quality (analyzeContentElement 300 3 4 0) = High
   \<and> quality_rank (quality (analyzeContentElement 299 3 4 0))
     \<le> quality_rank (quality (analyzeContentElement 300 3 4 0))"
  using quality_monotone [of 299 300 3 4 0 0]
  by (simp add: analyzeContentElement_def classify_words_def promote_def demote_def
      THIN_CONTENT_THRESHOLD_def MEDIUM_CONTENT_THRESHOLD_def)

section \<open>The opportunity score\<close>

lemma density_thresholds: "MIN_CONTEXTUAL_DENSITY < MAX_CONTEXTUAL_DENSITY"
  unfolding MIN_CONTEXTUAL_DENSITY_def MAX_CONTEXTUAL_DENSITY_def by code_simp

subsection \<open>No factor lowers the running score\<close>

lemma gapSeverity_score: "score r \<le> score (gapSeverity l c r)"
  by (simp add: gapSeverity_def Let_def)

lemma lowDensity_score: "score r \<le> score (lowDensity l c r)"
  by (simp add: lowDensity_def)

lemma overLinking_score: "score r \<le> score (overLinking l c r)"
  by (simp add: overLinking_def)

lemma pageTypeWeights_nonneg:
  "map_of pageTypeWeights t = Some (m, w, msg) \<Longrightarrow> 0 \<le> w"
  by (auto simp: pageTypeWeights_def split: if_splits)

lemma pageTypeWeighting_score: "score r \<le> score (pageTypeWeighting l t r)"
  by (auto simp: pageTypeWeighting_def split: option.splits dest: pageTypeWeights_nonneg)

lemma linkQuality_score: "score r \<le> score (linkQuality l r)"
  by (simp add: linkQuality_def Let_def)

lemma urlDepthFactor_score: "score r \<le> score (urlDepthFactor d r)"
  by (simp add: urlDepthFactor_def Let_def)

lemma factors_score:
  "score r \<le> score (urlDepthFactor d (linkQuality l (pageTypeWeighting l t
      (overLinking l c (lowDensity l c (gapSeverity l c r))))))"
proof -
  let ?r1 = "gapSeverity l c r"
  let ?r2 = "lowDensity l c ?r1"
  let ?r3 = "overLinking l c ?r2"
  let ?r4 = "pageTypeWeighting l t ?r3"
  let ?r5 = "linkQuality l ?r4"
  have "score r \<le> score ?r1" by (rule gapSeverity_score)
  also have "\<dots> \<le> score ?r2" by (rule lowDensity_score)
  also have "\<dots> \<le> score ?r3" by (rule overLinking_score)
  also have "\<dots> \<le> score ?r4" by (rule pageTypeWeighting_score)
  also have "\<dots> \<le> score ?r5" by (rule linkQuality_score)
  also have "\<dots> \<le> score (urlDepthFactor d ?r5)" by (rule urlDepthFactor_score)
  finally show ?thesis .
qed

text \<open>
  C1. For every link analysis, content data, page type and URL depth the returned score is
  an integer from 0 to 100.
\<close>

theorem score_bounds:
  "0 \<le> score (calculateContextualOpportunity l c t d)
   \<and> score (calculateContextualOpportunity l c t d) \<le> 100"
proof -
  let ?r0 = "\<lparr>score = 0, scoreBreakdown = [], opportunities = [],
              gapAnalysis = (initialGap l)\<lparr>recommendedLinks := idealLinks c\<rparr>\<rparr>"
  have "score ?r0 \<le> score (urlDepthFactor d (linkQuality l (pageTypeWeighting l t
      (overLinking l c (lowDensity l c (gapSeverity l c ?r0))))))"
    by (rule factors_score)
  then show ?thesis
    by (simp add: calculateContextualOpportunity_def Let_def)
qed

theorem score_bounds_witness:
  "score (calculateContextualOpportunity noLinks page400 ''blog-article'' 2) = 67
   \<and> 0 \<le> score (calculateContextualOpportunity noLinks page400 ''blog-article'' 2)
   \<and> score (calculateContextualOpportunity noLinks page400 ''blog-article'' 2) \<le> 100"
proof -
  have "score (calculateContextualOpportunity noLinks page400 ''blog-article'' 2) = 67"
    by code_simp
  with score_bounds [of noLinks page400 "''blog-article''" 2] show ?thesis by simp
qed

text \<open>
  C2. Content of fewer than 10 words gives the score 90 and the severity critical, whatever
  the link analysis, the page type and the depth are.
\<close>

theorem broken_page:
  assumes "words c < 10"
  shows "score (calculateContextualOpportunity l c t d) = 90
         \<and> severity (gapAnalysis (calculateContextualOpportunity l c t d)) = SevCritical"
  using assms by (simp add: calculateContextualOpportunity_def)

theorem broken_page_witness:
  "words page5 < 10
   \<and> score (calculateContextualOpportunity tenLinks page5 ''homepage'' 7) = 90
   \<and> severity (gapAnalysis (calculateContextualOpportunity tenLinks page5 ''homepage'' 7))
       = SevCritical"
proof -
  have h: "words page5 < 10" by (simp add: page5_def)
  from h broken_page [OF h, of tenLinks "''homepage''" 7] show ?thesis by simp
qed

subsection \<open>The score and the breakdown move together\<close>

lemma gapSeverity_total:
  "score (gapSeverity l c r) - breakdown_total (gapSeverity l c r) = score r - breakdown_total r"
  by (simp add: gapSeverity_def Let_def breakdown_total_def)

lemma lowDensity_total:
  "score (lowDensity l c r) - breakdown_total (lowDensity l c r) = score r - breakdown_total r"
  by (simp add: lowDensity_def breakdown_total_def)

lemma overLinking_total:
  "score (overLinking l c r) - breakdown_total (overLinking l c r) = score r - breakdown_total r"
  by (simp add: overLinking_def breakdown_total_def)

lemma pageTypeWeighting_total:
  "score (pageTypeWeighting l t r) - breakdown_total (pageTypeWeighting l t r)
   = score r - breakdown_total r"
  by (simp add: pageTypeWeighting_def breakdown_total_def split: option.splits)

lemma linkQuality_total:
  "score (linkQuality l r) - breakdown_total (linkQuality l r) = score r - breakdown_total r"
  by (simp add: linkQuality_def Let_def breakdown_total_def)

lemma urlDepthFactor_total:
  "score (urlDepthFactor d r) - breakdown_total (urlDepthFactor d r) = score r - breakdown_total r"
  by (simp add: urlDepthFactor_def Let_def breakdown_total_def)

lemma factors_total:
  "score (urlDepthFactor d (linkQuality l (pageTypeWeighting l t
      (overLinking l c (lowDensity l c (gapSeverity l c r))))))
   - breakdown_total (urlDepthFactor d (linkQuality l (pageTypeWeighting l t
      (overLinking l c (lowDensity l c (gapSeverity l c r))))))
   = score r - breakdown_total r"
  by (simp only: urlDepthFactor_total linkQuality_total pageTypeWeighting_total
      overLinking_total lowDensity_total gapSeverity_total)

lemma score_accounted: "accounted (calculateContextualOpportunity l c t d)"
proof -
  let ?r0 = "\<lparr>score = 0, scoreBreakdown = [], opportunities = [],
              gapAnalysis = (initialGap l)\<lparr>recommendedLinks := idealLinks c\<rparr>\<rparr>"
  let ?r5 = "urlDepthFactor d (linkQuality l (pageTypeWeighting l t
      (overLinking l c (lowDensity l c (gapSeverity l c ?r0)))))"
  have "score ?r5 - breakdown_total ?r5 = score ?r0 - breakdown_total ?r0"
    by (rule factors_total)
  then have "score ?r5 = breakdown_total ?r5"
    by (simp add: breakdown_total_def)
  then show ?thesis
    by (simp add: accounted_def calculateContextualOpportunity_def Let_def breakdown_total_def)
qed

subsection \<open>The density entries of the breakdown\<close>

lemma gapSeverity_low:
  "list_ex is_low_density (scoreBreakdown (gapSeverity l c r))
   = list_ex is_low_density (scoreBreakdown r)"
  by (simp add: gapSeverity_def Let_def)

lemma gapSeverity_over:
  "list_ex is_over_linking (scoreBreakdown (gapSeverity l c r))
   = list_ex is_over_linking (scoreBreakdown r)"
  by (simp add: gapSeverity_def Let_def)

lemma lowDensity_low:
  "list_ex is_low_density (scoreBreakdown (lowDensity l c r))
   = (contextualDensity l c < MIN_CONTEXTUAL_DENSITY
      \<or> list_ex is_low_density (scoreBreakdown r))"
  by (auto simp: lowDensity_def)

lemma lowDensity_over:
  "list_ex is_over_linking (scoreBreakdown (lowDensity l c r))
   = list_ex is_over_linking (scoreBreakdown r)"
  by (simp add: lowDensity_def)

lemma overLinking_low:
  "list_ex is_low_density (scoreBreakdown (overLinking l c r))
   = list_ex is_low_density (scoreBreakdown r)"
  by (simp add: overLinking_def)

lemma overLinking_over:
  "list_ex is_over_linking (scoreBreakdown (overLinking l c r))
   = (MAX_CONTEXTUAL_DENSITY < contextualDensity l c
      \<or> list_ex is_over_linking (scoreBreakdown r))"
  by (auto simp: overLinking_def)

lemma pageTypeWeighting_low:
  "list_ex is_low_density (scoreBreakdown (pageTypeWeighting l t r))
   = list_ex is_low_density (scoreBreakdown r)"
  by (simp add: pageTypeWeighting_def split: option.splits)

lemma pageTypeWeighting_over:
  "list_ex is_over_linking (scoreBreakdown (pageTypeWeighting l t r))
   = list_ex is_over_linking (scoreBreakdown r)"
  by (simp add: pageTypeWeighting_def split: option.splits)

lemma linkQuality_low:
  "list_ex is_low_density (scoreBreakdown (linkQuality l r))
   = list_ex is_low_density (scoreBreakdown r)"
  by (simp add: linkQuality_def Let_def)

lemma linkQuality_over:
  "list_ex is_over_linking (scoreBreakdown (linkQuality l r))
   = list_ex is_over_linking (scoreBreakdown r)"
  by (simp add: linkQuality_def Let_def)

lemma urlDepthFactor_low:
  "list_ex is_low_density (scoreBreakdown (urlDepthFactor d r))
   = list_ex is_low_density (scoreBreakdown r)"
  by (simp add: urlDepthFactor_def Let_def)

lemma urlDepthFactor_over:
  "list_ex is_over_linking (scoreBreakdown (urlDepthFactor d r))
   = list_ex is_over_linking (scoreBreakdown r)"
  by (simp add: urlDepthFactor_def Let_def)

lemmas density_entries =
  gapSeverity_low gapSeverity_over lowDensity_low lowDensity_over
  overLinking_low overLinking_over pageTypeWeighting_low pageTypeWeighting_over
  linkQuality_low linkQuality_over urlDepthFactor_low urlDepthFactor_over

lemma gapSeverity_density: "density_points (gapSeverity l c r) = density_points r"
  by (simp add: gapSeverity_def Let_def density_points_def)

lemma lowDensity_density:
  "density_points (lowDensity l c r)
   = density_points r + (if contextualDensity l c < MIN_CONTEXTUAL_DENSITY then 15 else 0)"
  by (simp add: lowDensity_def density_points_def)

lemma overLinking_density:
  "density_points (overLinking l c r)
   = density_points r + (if MAX_CONTEXTUAL_DENSITY < contextualDensity l c then 20 else 0)"
  by (simp add: overLinking_def density_points_def)

lemma pageTypeWeighting_density: "density_points (pageTypeWeighting l t r) = density_points r"
  by (simp add: pageTypeWeighting_def density_points_def split: option.splits)

lemma linkQuality_density: "density_points (linkQuality l r) = density_points r"
  by (simp add: linkQuality_def Let_def density_points_def)

lemma urlDepthFactor_density: "density_points (urlDepthFactor d r) = density_points r"
  by (simp add: urlDepthFactor_def Let_def density_points_def)

lemma density_points_final:
  "density_points (r\<lparr>score := s, opportunities := os\<rparr>) = density_points r"
  by (simp add: density_points_def)

lemma density_points_start:
  "density_points \<lparr>score = s, scoreBreakdown = [], opportunities = os, gapAnalysis = g\<rparr> = 0"
  by (simp add: density_points_def)

lemma density_points_eq:
  "density_points (calculateContextualOpportunity l c t d)
   = (if words c < MIN_WORDS_FOR_LINKS then 0
      else if contextualDensity l c < MIN_CONTEXTUAL_DENSITY then 15
      else if MAX_CONTEXTUAL_DENSITY < contextualDensity l c then 20 else 0)"
proof (cases "words c < MIN_WORDS_FOR_LINKS")
  case True
  then show ?thesis
    by (simp add: calculateContextualOpportunity_def density_points_def)
next
  case False
  have "\<not> (contextualDensity l c < MIN_CONTEXTUAL_DENSITY
           \<and> MAX_CONTEXTUAL_DENSITY < contextualDensity l c)"
    using density_thresholds by linarith
  moreover from False have "\<not> words c < 10"
    by (simp add: MIN_WORDS_FOR_LINKS_def)
  ultimately show ?thesis
    using False
    by (auto simp: calculateContextualOpportunity_def Let_def density_points_final
        density_points_start urlDepthFactor_density linkQuality_density
        pageTypeWeighting_density overLinking_density lowDensity_density gapSeverity_density)
qed

subsection \<open>The share of the density tests in the score\<close>

lemma lowDensity_shift:
  "score (lowDensity l c r)
   = score r + (if contextualDensity l c < MIN_CONTEXTUAL_DENSITY then 15 else 0)"
  by (simp add: lowDensity_def)

lemma overLinking_shift:
  "score (overLinking l c r)
   = score r + (if MAX_CONTEXTUAL_DENSITY < contextualDensity l c then 20 else 0)"
  by (simp add: overLinking_def)

lemma pageTypeWeighting_shift:
  "score (pageTypeWeighting l t r) - score r = score (pageTypeWeighting l t r') - score r'"
  by (simp add: pageTypeWeighting_def split: option.splits)

lemma linkQuality_shift:
  "score (linkQuality l r) - score r = score (linkQuality l r') - score r'"
  by (simp add: linkQuality_def Let_def)

lemma urlDepthFactor_shift:
  "score (urlDepthFactor d r) - score r = score (urlDepthFactor d r') - score r'"
  by (simp add: urlDepthFactor_def Let_def)

lemma density_share:
  "score (urlDepthFactor d (linkQuality l (pageTypeWeighting l t
      (overLinking l c (lowDensity l c r)))))
   = score (urlDepthFactor d (linkQuality l (pageTypeWeighting l t r)))
     + (if contextualDensity l c < MIN_CONTEXTUAL_DENSITY then 15 else 0)
     + (if MAX_CONTEXTUAL_DENSITY < contextualDensity l c then 20 else 0)"
proof -
  let ?b = "overLinking l c (lowDensity l c r)"
  have "score (urlDepthFactor d (linkQuality l (pageTypeWeighting l t ?b)))
        - score (linkQuality l (pageTypeWeighting l t ?b))
        = score (urlDepthFactor d (linkQuality l (pageTypeWeighting l t r)))
          - score (linkQuality l (pageTypeWeighting l t r))"
    by (rule urlDepthFactor_shift)
  moreover have "score (linkQuality l (pageTypeWeighting l t ?b))
        - score (pageTypeWeighting l t ?b)
        = score (linkQuality l (pageTypeWeighting l t r)) - score (pageTypeWeighting l t r)"
    by (rule linkQuality_shift)
  moreover have "score (pageTypeWeighting l t ?b) - score ?b
        = score (pageTypeWeighting l t r) - score r"
    by (rule pageTypeWeighting_shift)
  moreover have "score ?b = score r
        + (if contextualDensity l c < MIN_CONTEXTUAL_DENSITY then 15 else 0)
        + (if MAX_CONTEXTUAL_DENSITY < contextualDensity l c then 20 else 0)"
    by (simp only: overLinking_shift lowDensity_shift)
  ultimately show ?thesis by linarith
qed

lemma score_share:
  "score (calculateContextualOpportunity l c t d)
   = (if words c < 10 then 90
      else if words c < MIN_WORDS_FOR_LINKS then 50
      else min (otherFactors l c t d
                + density_points (calculateContextualOpportunity l c t d)) 100)"
proof (cases "words c < MIN_WORDS_FOR_LINKS")
  case True
  then show ?thesis
    by (simp add: calculateContextualOpportunity_def)
next
  case False
  then have w: "\<not> words c < 10"
    by (simp add: MIN_WORDS_FOR_LINKS_def)
  have x: "\<not> (contextualDensity l c < MIN_CONTEXTUAL_DENSITY
           \<and> MAX_CONTEXTUAL_DENSITY < contextualDensity l c)"
    using density_thresholds by linarith
  let ?r0 = "\<lparr>score = 0, scoreBreakdown = [], opportunities = [],
              gapAnalysis = (initialGap l)\<lparr>recommendedLinks := idealLinks c\<rparr>\<rparr>"
  have "score (calculateContextualOpportunity l c t d)
        = min (score (urlDepthFactor d (linkQuality l (pageTypeWeighting l t
            (overLinking l c (lowDensity l c (gapSeverity l c ?r0))))))) 100"
    using False w by (simp add: calculateContextualOpportunity_def Let_def)
  also have "\<dots> = min (otherFactors l c t d
        + (if contextualDensity l c < MIN_CONTEXTUAL_DENSITY then 15 else 0)
        + (if MAX_CONTEXTUAL_DENSITY < contextualDensity l c then 20 else 0)) 100"
    by (simp only: density_share otherFactors_def)
  also have "\<dots> = min (otherFactors l c t d
        + density_points (calculateContextualOpportunity l c t d)) 100"
    using False x by (auto simp: density_points_eq)
  finally show ?thesis
    using False w by simp
qed

lemma low_density_added_iff:
  "low_density_added (calculateContextualOpportunity l c t d)
   = (MIN_WORDS_FOR_LINKS \<le> words c \<and> contextualDensity l c < MIN_CONTEXTUAL_DENSITY)"
  unfolding low_density_added_def
  by (simp add: score_accounted)
     (simp add: calculateContextualOpportunity_def Let_def density_entries
      MIN_WORDS_FOR_LINKS_def)

lemma over_linking_added_iff:
  "over_linking_added (calculateContextualOpportunity l c t d)
   = (MIN_WORDS_FOR_LINKS \<le> words c \<and> MAX_CONTEXTUAL_DENSITY < contextualDensity l c)"
  unfolding over_linking_added_def
  by (simp add: score_accounted)
     (simp add: calculateContextualOpportunity_def Let_def density_entries
      MIN_WORDS_FOR_LINKS_def)

text \<open>
  C3, as the code has it. The score is the capped total of the points that the breakdown
  lists, and past the two early exits it is the running score of the other factors plus
  the points of the density tests, capped at 100. Those points are 15 when the density is
  below the minimum, 20 when it is above the maximum, and 0 otherwise or when the content
  has fewer than 50 words. The low-density bonus (+15) is added exactly when the content
  has at least 50 words and the density is below the minimum; the over-linking bonus (+20)
  exactly when the content has at least 50 words and the density is above the maximum;
  and no computation adds both, the minimum being below the maximum.
\<close>

theorem density_bonuses_exclusive:
  "accounted (calculateContextualOpportunity l c t d)
   \<and> score (calculateContextualOpportunity l c t d)
      = (if words c < 10 then 90
         else if words c < MIN_WORDS_FOR_LINKS then 50
         else min (otherFactors l c t d
                   + density_points (calculateContextualOpportunity l c t d)) 100)
   \<and> density_points (calculateContextualOpportunity l c t d)
      = (if words c < MIN_WORDS_FOR_LINKS then 0
         else if contextualDensity l c < MIN_CONTEXTUAL_DENSITY then 15
         else if MAX_CONTEXTUAL_DENSITY < contextualDensity l c then 20 else 0)
   \<and> (low_density_added (calculateContextualOpportunity l c t d)
      = (MIN_WORDS_FOR_LINKS \<le> words c \<and> contextualDensity l c < MIN_CONTEXTUAL_DENSITY))
   \<and> (over_linking_added (calculateContextualOpportunity l c t d)
      = (MIN_WORDS_FOR_LINKS \<le> words c \<and> MAX_CONTEXTUAL_DENSITY < contextualDensity l c))
   \<and> \<not> (low_density_added (calculateContextualOpportunity l c t d)
          \<and> over_linking_added (calculateContextualOpportunity l c t d))"
proof (intro conjI)
  show "accounted (calculateContextualOpportunity l c t d)"
    by (rule score_accounted)
  show "score (calculateContextualOpportunity l c t d)
      = (if words c < 10 then 90
         else if words c < MIN_WORDS_FOR_LINKS then 50
         else min (otherFactors l c t d
                   + density_points (calculateContextualOpportunity l c t d)) 100)"
    by (rule score_share)
  show "density_points (calculateContextualOpportunity l c t d)
      = (if words c < MIN_WORDS_FOR_LINKS then 0
         else if contextualDensity l c < MIN_CONTEXTUAL_DENSITY then 15
         else if MAX_CONTEXTUAL_DENSITY < contextualDensity l c then 20 else 0)"
    by (rule density_points_eq)
  show "low_density_added (calculateContextualOpportunity l c t d)
      = (MIN_WORDS_FOR_LINKS \<le> words c \<and> contextualDensity l c < MIN_CONTEXTUAL_DENSITY)"
    by (rule low_density_added_iff)
  show "over_linking_added (calculateContextualOpportunity l c t d)
      = (MIN_WORDS_FOR_LINKS \<le> words c \<and> MAX_CONTEXTUAL_DENSITY < contextualDensity l c)"
    by (rule over_linking_added_iff)
  show "\<not> (low_density_added (calculateContextualOpportunity l c t d)
          \<and> over_linking_added (calculateContextualOpportunity l c t d))"
    using density_thresholds
    by (simp only: low_density_added_iff over_linking_added_iff) linarith
qed

theorem density_bonuses_exclusive_witness:
  "score (calculateContextualOpportunity noLinks page400 ''other'' 1) = 55
   \<and> otherFactors noLinks page400 ''other'' 1 = 40
   \<and> density_points (calculateContextualOpportunity noLinks page400 ''other'' 1) = 15
   \<and> low_density_added (calculateContextualOpportunity noLinks page400 ''other'' 1)
   \<and> \<not> over_linking_added (calculateContextualOpportunity noLinks page400 ''other'' 1)
   \<and> score (calculateContextualOpportunity tenLinks page100 ''other'' 1) = 20
   \<and> otherFactors tenLinks page100 ''other'' 1 = 0
   \<and> density_points (calculateContextualOpportunity tenLinks page100 ''other'' 1) = 20
   \<and> over_linking_added (calculateContextualOpportunity tenLinks page100 ''other'' 1)
   \<and> \<not> low_density_added (calculateContextualOpportunity tenLinks page100 ''other'' 1)"
proof -
  have a: "MIN_WORDS_FOR_LINKS \<le> words page400
           \<and> contextualDensity noLinks page400 < MIN_CONTEXTUAL_DENSITY"
    by code_simp
  have b: "MIN_WORDS_FOR_LINKS \<le> words page100
           \<and> MAX_CONTEXTUAL_DENSITY < contextualDensity tenLinks page100"
    by code_simp
  have o: "otherFactors noLinks page400 ''other'' 1 = 40"
    "otherFactors tenLinks page100 ''other'' 1 = 0"
    by code_simp+
  have n: "\<not> words page400 < MIN_WORDS_FOR_LINKS" "\<not> words page100 < MIN_WORDS_FOR_LINKS"
    "\<not> words page400 < 10" "\<not> words page100 < 10"
    using a b by (simp_all add: MIN_WORDS_FOR_LINKS_def)
  have m: "\<not> contextualDensity tenLinks page100 < MIN_CONTEXTUAL_DENSITY"
    "\<not> MAX_CONTEXTUAL_DENSITY < contextualDensity noLinks page400"
    using a b density_thresholds by linarith+
  from density_bonuses_exclusive [of noLinks page400 "''other''" 1] a n m o
  have 1: "score (calculateContextualOpportunity noLinks page400 ''other'' 1) = 55
   \<and> density_points (calculateContextualOpportunity noLinks page400 ''other'' 1) = 15
   \<and> low_density_added (calculateContextualOpportunity noLinks page400 ''other'' 1)
   \<and> \<not> over_linking_added (calculateContextualOpportunity noLinks page400 ''other'' 1)"
    by (simp only: simp_thms if_True if_False)
  from density_bonuses_exclusive [of tenLinks page100 "''other''" 1] b n m o
  have 2: "score (calculateContextualOpportunity tenLinks page100 ''other'' 1) = 20
   \<and> density_points (calculateContextualOpportunity tenLinks page100 ''other'' 1) = 20
   \<and> over_linking_added (calculateContextualOpportunity tenLinks page100 ''other'' 1)
   \<and> \<not> low_density_added (calculateContextualOpportunity tenLinks page100 ''other'' 1)"
    by (simp only: simp_thms if_True if_False)
  from o 1 2 show ?thesis by blast
qed

text \<open>
  The claim in its own words: some input makes one computation add both the +15 and the
  +20. No input does: the score is always the capped total of the points its breakdown
  lists, made of the other factors and of the points of the density tests, and those
  points stay below 15 + 20; and no breakdown lists both entries.
\<close>

theorem both_density_bonuses_counterexample:
  "(\<forall>l c t d. accounted (calculateContextualOpportunity l c t d)
        \<and> score (calculateContextualOpportunity l c t d)
           = (if words c < 10 then 90
              else if words c < MIN_WORDS_FOR_LINKS then 50
              else min (otherFactors l c t d
                        + density_points (calculateContextualOpportunity l c t d)) 100)
        \<and> density_points (calculateContextualOpportunity l c t d) < 15 + 20)
   \<and> \<not> (\<exists>l c t d. low_density_added (calculateContextualOpportunity l c t d)
                \<and> over_linking_added (calculateContextualOpportunity l c t d))"
proof (intro conjI allI notI)
  fix l c t d
  show "accounted (calculateContextualOpportunity l c t d)" by (rule score_accounted)
  show "score (calculateContextualOpportunity l c t d)
           = (if words c < 10 then 90
              else if words c < MIN_WORDS_FOR_LINKS then 50
              else min (otherFactors l c t d
                        + density_points (calculateContextualOpportunity l c t d)) 100)"
    by (rule score_share)
  show "density_points (calculateContextualOpportunity l c t d) < 15 + 20"
    by (simp add: density_points_eq)
next
  assume "\<exists>l c t d. low_density_added (calculateContextualOpportunity l c t d)
                \<and> over_linking_added (calculateContextualOpportunity l c t d)"
  then obtain l c t d where
    "low_density_added (calculateContextualOpportunity l c t d)"
    "over_linking_added (calculateContextualOpportunity l c t d)" by blast
  then have "contextualDensity l c < MIN_CONTEXTUAL_DENSITY"
    and "MAX_CONTEXTUAL_DENSITY < contextualDensity l c"
    by (simp_all add: low_density_added_iff over_linking_added_iff)
  with density_thresholds show False by linarith
qed

subsection \<open>The recommended number of links\<close>

lemma gapSeverity_recommended:
  "recommendedLinks (gapAnalysis (gapSeverity l c r)) = recommendedLinks (gapAnalysis r)"
  by (simp add: gapSeverity_def Let_def)

lemma lowDensity_gap: "gapAnalysis (lowDensity l c r) = gapAnalysis r"
  by (simp add: lowDensity_def)

lemma overLinking_gap: "gapAnalysis (overLinking l c r) = gapAnalysis r"
  by (simp add: overLinking_def)

lemma pageTypeWeighting_gap: "gapAnalysis (pageTypeWeighting l t r) = gapAnalysis r"
  by (simp add: pageTypeWeighting_def split: option.splits)

lemma linkQuality_gap: "gapAnalysis (linkQuality l r) = gapAnalysis r"
  by (simp add: linkQuality_def Let_def)

lemma urlDepthFactor_gap: "gapAnalysis (urlDepthFactor d r) = gapAnalysis r"
  by (simp add: urlDepthFactor_def Let_def)

lemma idealLinks_pos: "1 \<le> idealLinks c"
  by (simp add: idealLinks_def)

text \<open>The word count is the length of an array, which is below \<open>2 ^ 32\<close>; the
  binary64 quotient by 100 then has the whole part of the exact quotient.\<close>

lemma idealLinks_div:
  "words c < 2 ^ 32 \<Longrightarrow> idealLinks c = max 1 (words c div 100)"
  by (simp add: idealLinks_def Math_floor_def js_div_def CONTEXTUAL_LINK_TARGET_def
      floor_round_double_div100 max_def)

lemma recommended_after_factors:
  "MIN_WORDS_FOR_LINKS \<le> words c \<Longrightarrow>
   recommendedLinks (gapAnalysis (calculateContextualOpportunity l c t d)) = idealLinks c"
  by (simp add: calculateContextualOpportunity_def Let_def MIN_WORDS_FOR_LINKS_def
      gapSeverity_recommended lowDensity_gap overLinking_gap pageTypeWeighting_gap
      linkQuality_gap urlDepthFactor_gap initialGap_def)

lemma recommended_early_exit:
  "words c < MIN_WORDS_FOR_LINKS \<Longrightarrow>
   recommendedLinks (gapAnalysis (calculateContextualOpportunity l c t d)) = 0"
  by (simp add: calculateContextualOpportunity_def MIN_WORDS_FOR_LINKS_def initialGap_def)

text \<open>
  C4, as the code has it. With at least 50 words the recommended number of links is the
  ideal number, the larger of 1 and the whole part of a hundredth of the word count, and
  so at least 1. The two early exits, below 50 words, return the analysis as they found
  it, with 0 recommended links.
\<close>

theorem recommended_links:
  "recommendedLinks (gapAnalysis (calculateContextualOpportunity l c t d))
     = (if words c < MIN_WORDS_FOR_LINKS then 0 else idealLinks c)
   \<and> (MIN_WORDS_FOR_LINKS \<le> words c \<longrightarrow>
        1 \<le> recommendedLinks (gapAnalysis (calculateContextualOpportunity l c t d)))
   \<and> (MIN_WORDS_FOR_LINKS \<le> words c \<and> words c < 2 ^ 32 \<longrightarrow>
        recommendedLinks (gapAnalysis (calculateContextualOpportunity l c t d))
          = max 1 (words c div 100))"
  using idealLinks_pos [of c]
  by (simp add: recommended_after_factors recommended_early_exit idealLinks_div)

theorem recommended_links_witness:
  "MIN_WORDS_FOR_LINKS \<le> words page400 \<and> words page400 < 2 ^ 32
   \<and> recommendedLinks (gapAnalysis (calculateContextualOpportunity noLinks page400 ''blog-article'' 2)) = 4
   \<and> 1 \<le> recommendedLinks (gapAnalysis (calculateContextualOpportunity noLinks page400 ''blog-article'' 2))"
proof -
  have "MIN_WORDS_FOR_LINKS \<le> words page400 \<and> words page400 < 2 ^ 32
        \<and> max 1 (words page400 div 100) = 4"
    by (simp add: MIN_WORDS_FOR_LINKS_def page400_def)
  with recommended_links [of noLinks page400 "''blog-article''" 2] show ?thesis by simp
qed

text \<open>The claim in its own words fails on a page of five words and on a page of 30 words,
  one for each early exit.\<close>

theorem recommended_links_counterexample:
  "recommendedLinks (gapAnalysis (calculateContextualOpportunity tenLinks page5 ''homepage'' 1)) = 0
   \<and> recommendedLinks (gapAnalysis (calculateContextualOpportunity tenLinks page30 ''homepage'' 1)) = 0"
  by (simp add: calculateContextualOpportunity_def MIN_WORDS_FOR_LINKS_def initialGap_def
      page5_def page30_def)

section \<open>Repair of stored embedding strings\<close>

lemma accepts_numeric: "accepts st s \<Longrightarrow> list_all numeric_char s"
  by (induction st s rule: accepts.induct) (auto simp: numeric_char_def split: if_splits)

lemma numeric_char_plain:
  "numeric_char c \<Longrightarrow>
   c \<noteq> CHR ''['' \<and> c \<noteq> CHR '']'' \<and> c \<noteq> CHR ''{'' \<and> c \<noteq> CHR 0x22 \<and> \<not> isWhiteSpace c"
  by (auto simp: numeric_char_def isDigit_def isWhiteSpace_def)

lemma literal_quote_numeric:
  "list_all numeric_char s \<Longrightarrow> literal (CHR 0x22 # p) s = None"
  by (cases s) (auto simp: literal_def startsWith_def dest: numeric_char_plain)

lemma optional_numeric:
  "list_all numeric_char s \<Longrightarrow> c \<in> {CHR ''['', CHR ''{'', CHR 0x22} \<Longrightarrow> optional c s = s"
  by (cases s) (auto simp: optional_def dest: numeric_char_plain)

lemma stripNestedPrefix_numeric:
  "list_all numeric_char s \<Longrightarrow> stripNestedPrefix s = s"
  by (simp add: stripNestedPrefix_def embeddingKey_def optional_numeric literal_quote_numeric)

lemma stripMethodSuffix_numeric:
  "list_all numeric_char s \<Longrightarrow> stripMethodSuffix s = s"
proof (induction s)
  case Nil
  then show ?case by simp
next
  case (Cons x xs)
  then have "literal ''\"'' (x # xs) = None"
    by (intro literal_quote_numeric) simp
  with Cons show ?case by (simp add: methodSuffix_def)
qed

lemma stripTrailing_numeric:
  "list_all numeric_char s \<Longrightarrow> c \<in> {CHR '']'', CHR 0x22} \<Longrightarrow> stripTrailing c s = s"
proof (cases "s = []")
  case True
  then show ?thesis by (simp add: stripTrailing_def)
next
  case False
  assume "list_all numeric_char s" and c: "c \<in> {CHR '']'', CHR 0x22}"
  with False have "numeric_char (last s)" by (simp add: list_all_iff)
  with c have "last s \<noteq> c" by (auto dest: numeric_char_plain)
  then show ?thesis by (simp add: stripTrailing_def)
qed

lemma dropWhile_numeric:
  "list_all numeric_char s \<Longrightarrow> dropWhile isWhiteSpace s = s"
  by (cases s) (auto dest: numeric_char_plain)

lemma trim_numeric: "list_all numeric_char s \<Longrightarrow> trim s = s"
  by (simp add: trim_def dropWhile_numeric)

lemma cleanupMalformedData_numeric:
  "list_all numeric_char s \<Longrightarrow> cleanupMalformedData (JsString s) = JsString s"
  by (simp add: stripNestedPrefix_numeric stripMethodSuffix_numeric stripBrackets_def
      stripQuotes_def optional_numeric stripTrailing_numeric trim_numeric)

lemma embeddingGrammar_nonempty: "embeddingGrammar s \<Longrightarrow> s \<noteq> []"
  by (auto simp: embeddingGrammar_def)

lemma string_includes_member: "string_includes s (c # p) \<Longrightarrow> c \<in> set s"
  by (induction s) (auto simp: startsWith_def)

lemma numeric_no_wrapper:
  "list_all numeric_char s \<Longrightarrow> \<not> string_includes s (CHR ''{'' # p)"
  by (auto dest!: string_includes_member simp: list_all_iff dest: numeric_char_plain)

text \<open>
  C5. A string that the validating pattern accepts holds no embedding wrapper, and both
  \<open>cleanupMalformedData\<close> and \<open>cleanupExistingData\<close> return it unchanged; and the
  malformed sample with the doubled wrapper and the trailing method field is repaired to
  exactly its three numbers.
\<close>

theorem repair_round_trip:
  \<open>(embeddingGrammar S \<longrightarrow>
      \<not> string_includes S ''{"embedding":''
      \<and> cleanupMalformedData (JsString S) = JsString S
      \<and> cleanupExistingData (JsString S) = Some S)
   \<and> cleanupMalformedData
       (JsString ''[{"embedding":"[{"embedding":"0.1,0.2,0.3","method":"x"}'')
     = JsString ''0.1,0.2,0.3''
   \<and> cleanupExistingData
       (JsString ''[{"embedding":"[{"embedding":"0.1,0.2,0.3","method":"x"}'')
     = Some ''0.1,0.2,0.3''\<close>
proof (intro conjI impI)
  assume g: "embeddingGrammar S"
  then have n: "list_all numeric_char S"
    by (simp add: embeddingGrammar_def accepts_numeric)
  from n show "\<not> string_includes S ''{\"embedding\":''" by (rule numeric_no_wrapper)
  from n show "cleanupMalformedData (JsString S) = JsString S"
    by (rule cleanupMalformedData_numeric)
  with g show "cleanupExistingData (JsString S) = Some S"
    by (simp add: embeddingGrammar_nonempty)
next
  show \<open>cleanupMalformedData
       (JsString ''[{"embedding":"[{"embedding":"0.1,0.2,0.3","method":"x"}'')
     = JsString ''0.1,0.2,0.3''\<close>
    by code_simp
  show \<open>cleanupExistingData
       (JsString ''[{"embedding":"[{"embedding":"0.1,0.2,0.3","method":"x"}'')
     = Some ''0.1,0.2,0.3''\<close>
    by code_simp
qed

theorem repair_round_trip_witness:
  "embeddingGrammar ''-12.5,3,0.25''
   \<and> cleanupMalformedData (JsString ''-12.5,3,0.25'') = JsString ''-12.5,3,0.25''
   \<and> cleanupExistingData (JsString ''-12.5,3,0.25'') = Some ''-12.5,3,0.25''"
proof -
  have g: "embeddingGrammar ''-12.5,3,0.25''"
    by (simp add: embeddingGrammar_def isDigit_def)
  with repair_round_trip [of "''-12.5,3,0.25''"] show ?thesis by blast
qed

text \<open>
  C6, as the code has it. For a string that contains the embedding wrapper,
  \<open>cleanupExistingData\<close> returns \<open>null\<close> or a string that the validating pattern
  accepts. A string without the wrapper is returned as it is, unvalidated.
\<close>

theorem repair_validates:
  \<open>(string_includes s ''{"embedding":'' \<longrightarrow>
       (case cleanupExistingData (JsString s) of
          None \<Rightarrow> True
        | Some r \<Rightarrow> embeddingGrammar r))
   \<and> (\<not> string_includes s ''{"embedding":'' \<longrightarrow> cleanupExistingData (JsString s) = Some s)\<close>
  by (simp split: js_value.splits)

theorem repair_validates_witness:
  \<open>string_includes ''[{"embedding":"[{"embedding":"0.1,0.2,0.3","method":"x"}'' ''{"embedding":''
   \<and> cleanupExistingData (JsString ''[{"embedding":"[{"embedding":"0.1,0.2,0.3","method":"x"}'')
       = Some ''0.1,0.2,0.3''
   \<and> embeddingGrammar ''0.1,0.2,0.3''
   \<and> string_includes ''{"embedding":"0.1,0.2","method":"x"}'' ''{"embedding":''
   \<and> cleanupExistingData (JsString ''{"embedding":"0.1,0.2","method":"x"}'') = None
   \<and> \<not> string_includes ''0.5,-1'' ''{"embedding":''
   \<and> cleanupExistingData (JsString ''0.5,-1'') = Some ''0.5,-1''\<close>
proof -
  have a: \<open>string_includes ''[{"embedding":"[{"embedding":"0.1,0.2,0.3","method":"x"}'' ''{"embedding":''\<close>
    by code_simp
  have b: \<open>cleanupExistingData (JsString ''[{"embedding":"[{"embedding":"0.1,0.2,0.3","method":"x"}'')
       = Some ''0.1,0.2,0.3''\<close>
    by code_simp
  have c: \<open>string_includes ''{"embedding":"0.1,0.2","method":"x"}'' ''{"embedding":''
     \<and> cleanupExistingData (JsString ''{"embedding":"0.1,0.2","method":"x"}'') = None\<close>
    by code_simp
  have d: \<open>\<not> string_includes ''0.5,-1'' ''{"embedding":''\<close>
    by code_simp
  from a repair_validates [of \<open>''[{"embedding":"[{"embedding":"0.1,0.2,0.3","method":"x"}''\<close>]
  have \<open>case cleanupExistingData
           (JsString ''[{"embedding":"[{"embedding":"0.1,0.2,0.3","method":"x"}'') of
          None \<Rightarrow> True | Some r \<Rightarrow> embeddingGrammar r\<close>
    by blast
  then have e: "embeddingGrammar ''0.1,0.2,0.3''"
    by (simp only: b option.case)
  from d repair_validates [of "''0.5,-1''"]
  have "cleanupExistingData (JsString ''0.5,-1'') = Some ''0.5,-1''"
    by blast
  with a b c d e show ?thesis by blast
qed

text \<open>The claim in its own words fails on the text of a failed fetch, which the script
  itself expects among stored values: it is returned unchanged and is no list of numbers.\<close>

theorem repair_validates_counterexample:
  "cleanupExistingData (JsString ''TypeError: Failed to fetch'') = Some ''TypeError: Failed to fetch''
   \<and> \<not> embeddingGrammar ''TypeError: Failed to fetch''"
  by code_simp

section \<open>The link analysis\<close>

text \<open>
  C9 says that an absolute address is internal exactly when its host is the host of the
  page. The analyzer parses no address: it looks for the host name of the page anywhere
  in the text of the address. On a page of example.com, a share link to twitter.com that
  carries the address of the page in its query is therefore counted as a contextual
  internal link and not as an external one, and so is an address of the host
  notexample.com.evil.org; and a link to the page's own host written in capitals is
  counted as external.
\<close>

theorem foreign_host_counted_internal:
  "isInternal ''example.com'' (href shareLink)
   \<and> contextual (analyzeLinksAdvanced ''example.com'' [shareLink]) = 1
   \<and> external (analyzeLinksAdvanced ''example.com'' [shareLink]) = 0
   \<and> isInternal ''example.com'' ''https://notexample.com.evil.org/''
   \<and> \<not> isInternal ''example.com'' (href capitalLink)
   \<and> contextual (analyzeLinksAdvanced ''example.com'' [capitalLink]) = 0
   \<and> external (analyzeLinksAdvanced ''example.com'' [capitalLink]) = 1"
  by code_simp

section \<open>The link diversity\<close>

lemma claimed_percent_div:
  assumes "0 < c"
  shows "claimed_percent u c = int ((200 * u + c) div (2 * c))"
proof -
  have "100 * of_nat u / (of_nat c :: rat) + 1 / 2 = of_nat (200 * u + c) / of_nat (2 * c)"
    using assms by (simp add: field_simps)
  then show ?thesis
    unfolding claimed_percent_def by (simp only: floor_divide_of_nat_eq)
qed

lemma link_diversity_percent:
  assumes "0 < contextual l" and "card (uniqueContextual l) < 2 ^ 32"
  shows "\<exists>p. calculateLinkDiversity l = numberToString p @ ''%''
           \<and> (p = claimed_percent (card (uniqueContextual l)) (contextual l)
              \<or> percent_tie (card (uniqueContextual l)) (contextual l)
                \<and> p = claimed_percent (card (uniqueContextual l)) (contextual l) - 1)"
proof -
  let ?p = "Math_round (js_mul (js_div (of_nat (card (uniqueContextual l)))
                                      (of_nat (contextual l))) 100)"
  from assms(1) have "calculateLinkDiversity l = numberToString ?p @ ''%''"
    by (simp add: calculateLinkDiversity_def)
  moreover have "?p = claimed_percent (card (uniqueContextual l)) (contextual l)
              \<or> percent_tie (card (uniqueContextual l)) (contextual l)
                \<and> ?p = claimed_percent (card (uniqueContextual l)) (contextual l) - 1"
    using percent_round [OF assms]
    by (simp only: claimed_percent_div [OF assms(1)] percent_tie_def)
  ultimately show ?thesis
    by (intro exI [of _ ?p] conjI)
qed

text \<open>
  C10, as the code has it. Without contextual links the result is N/A and nothing is
  divided. With contextual links, and fewer than \<open>2 ^ 32\<close> distinct targets, the
  result is a whole number followed by the percent sign: the percentage rounded to the
  nearest integer, or, only when the exact percentage ends in a half, possibly the
  integer below it, because the quotient is rounded to binary64 before it is scaled.
\<close>

theorem link_diversity:
  "(contextual l = 0 \<longrightarrow> calculateLinkDiversity l = ''N/A'')
   \<and> (0 < contextual l \<and> card (uniqueContextual l) < 2 ^ 32 \<longrightarrow>
        (\<exists>p. calculateLinkDiversity l = numberToString p @ ''%''
           \<and> (p = claimed_percent (card (uniqueContextual l)) (contextual l)
              \<or> percent_tie (card (uniqueContextual l)) (contextual l)
                \<and> p = claimed_percent (card (uniqueContextual l)) (contextual l) - 1)))"
proof (rule conjI)
  show "contextual l = 0 \<longrightarrow> calculateLinkDiversity l = ''N/A''"
    by (simp add: calculateLinkDiversity_def)
next
  show "0 < contextual l \<and> card (uniqueContextual l) < 2 ^ 32 \<longrightarrow>
        (\<exists>p. calculateLinkDiversity l = numberToString p @ ''%''
           \<and> (p = claimed_percent (card (uniqueContextual l)) (contextual l)
              \<or> percent_tie (card (uniqueContextual l)) (contextual l)
                \<and> p = claimed_percent (card (uniqueContextual l)) (contextual l) - 1))"
  proof
    assume "0 < contextual l \<and> card (uniqueContextual l) < 2 ^ 32"
    then have "0 < contextual l" and "card (uniqueContextual l) < 2 ^ 32"
      by (rule conjunct1, rule conjunct2)
    then show "\<exists>p. calculateLinkDiversity l = numberToString p @ ''%''
           \<and> (p = claimed_percent (card (uniqueContextual l)) (contextual l)
              \<or> percent_tie (card (uniqueContextual l)) (contextual l)
                \<and> p = claimed_percent (card (uniqueContextual l)) (contextual l) - 1)"
      by (rule link_diversity_percent)
  qed
qed

theorem link_diversity_witness:
  "contextual noLinks = 0 \<and> calculateLinkDiversity noLinks = ''N/A''
   \<and> 0 < contextual eightLinks \<and> card (uniqueContextual eightLinks) < 2 ^ 32
   \<and> calculateLinkDiversity eightLinks = ''50%''"
proof -
  have e: "contextual noLinks = 0" by code_simp
  have c: "contextual eightLinks = 8" and u: "card (uniqueContextual eightLinks) = 4"
    by code_simp+
  have h: "0 < contextual eightLinks \<and> card (uniqueContextual eightLinks) < 2 ^ 32"
    by (simp add: c u)
  have r: "claimed_percent 4 8 = 50" and t: "\<not> percent_tie 4 8"
    by code_simp+
  have s: "numberToString 50 @ ''%'' = ''50%''" by code_simp
  from link_diversity [of noLinks] have "contextual noLinks = 0 \<longrightarrow> calculateLinkDiversity noLinks = ''N/A''"
    by (rule conjunct1)
  with e have na: "calculateLinkDiversity noLinks = ''N/A''" by (rule rev_mp)
  from link_diversity [of eightLinks]
  have "0 < contextual eightLinks \<and> card (uniqueContextual eightLinks) < 2 ^ 32 \<longrightarrow>
        (\<exists>p. calculateLinkDiversity eightLinks = numberToString p @ ''%''
           \<and> (p = claimed_percent (card (uniqueContextual eightLinks)) (contextual eightLinks)
              \<or> percent_tie (card (uniqueContextual eightLinks)) (contextual eightLinks)
                \<and> p = claimed_percent (card (uniqueContextual eightLinks)) (contextual eightLinks) - 1))"
    by (rule conjunct2)
  with h have "\<exists>p. calculateLinkDiversity eightLinks = numberToString p @ ''%''
           \<and> (p = claimed_percent (card (uniqueContextual eightLinks)) (contextual eightLinks)
              \<or> percent_tie (card (uniqueContextual eightLinks)) (contextual eightLinks)
                \<and> p = claimed_percent (card (uniqueContextual eightLinks)) (contextual eightLinks) - 1)"
    by (rule rev_mp)
  then have "\<exists>p. calculateLinkDiversity eightLinks = numberToString p @ ''%'' \<and> p = 50"
    unfolding c u using r t by simp
  then have "calculateLinkDiversity eightLinks = ''50%''"
    using s by auto
  with e na h show ?thesis by (intro conjI) simp_all
qed

text \<open>
  The claim in its own words fails on a tie. With 23 distinct targets among 40 links the
  percentage is 57.5 and rounds to 58, but the quotient 23 / 40 is rounded to a binary64
  value first, its product with 100 is 57.49999999999999289..., and the function returns
  57%.
\<close>

theorem link_diversity_counterexample:
  "contextual fortyLinks = 40 \<and> card (uniqueContextual fortyLinks) = 23
   \<and> js_div 23 40 = 2589569785738035 / 4503599627370496
   \<and> js_mul (js_div 23 40) 100 = 8092405580431359 / 140737488355328
   \<and> calculateLinkDiversity fortyLinks = ''57%''
   \<and> numberToString (claimed_percent 23 40) @ ''%'' = ''58%''"
  by code_simp

section \<open>The square root\<close>

text \<open>
  \<open>js_sqrt\<close> is the correctly rounded square root: its result has a significand of 53
  bits, and the exact root lies within half the distance of neighbours from it.
\<close>

lemma sqrt_search_correct:
  assumes "0 \<le> r" "r * r \<le> n" "n < (r + 2 ^ k) * (r + 2 ^ k)" "b = 2 ^ k div 2"
  shows "0 \<le> sqrt_search n k b r
         \<and> sqrt_search n k b r * sqrt_search n k b r \<le> n
         \<and> n < (sqrt_search n k b r + 1) * (sqrt_search n k b r + 1)"
  using assms
proof (induction k arbitrary: b r)
  case 0
  then show ?case by simp
next
  case (Suc k)
  from Suc.prems(4) have b: "b = 2 ^ k" by simp
  show ?case
  proof (cases "(r + b) * (r + b) \<le> n")
    case True
    have "n < (r + b + 2 ^ k) * (r + b + 2 ^ k)"
      using Suc.prems(3) by (simp add: b algebra_simps)
    moreover have "0 \<le> r + b" using Suc.prems(1) by (simp add: b)
    moreover have "b div 2 = 2 ^ k div 2" by (simp add: b)
    ultimately show ?thesis
      using Suc.IH [of "r + b" "b div 2"] True by simp
  next
    case False
    then have "n < (r + 2 ^ k) * (r + 2 ^ k)" by (simp add: b)
    moreover have "b div 2 = 2 ^ k div 2" by (simp add: b)
    ultimately show ?thesis
      using Suc.IH [of r "b div 2"] Suc.prems(1,2) False by simp
  qed
qed

lemma floor_sqrt_correct:
  assumes "0 \<le> n" "n < 2 ^ 106"
  shows "0 \<le> floor_sqrt n \<and> floor_sqrt n * floor_sqrt n \<le> n
         \<and> n < (floor_sqrt n + 1) * (floor_sqrt n + 1)"
  unfolding floor_sqrt_def
proof (rule sqrt_search_correct)
  show "(0::int) \<le> 0" by simp
  show "(0::int) * 0 \<le> n" using assms(1) by simp
  have "(2::int) ^ 53 * 2 ^ 53 = 2 ^ 106" by simp
  then show "n < (0 + 2 ^ 53) * (0 + 2 ^ 53)" using assms(2) by simp
  show "(2::int) ^ 52 = 2 ^ 53 div 2" by simp
qed

lemma js_sqrt_nearest:
  assumes "0 < x"
  shows "\<exists>n. js_sqrt x = of_int n * pow2 (binade x div 2 - 52)
            \<and> 2 ^ 52 \<le> n \<and> n \<le> 2 ^ 53
            \<and> (of_int n - 1 / 2) * (of_int n - 1 / 2)
                * (pow2 (binade x div 2 - 52) * pow2 (binade x div 2 - 52)) \<le> x
            \<and> x \<le> (of_int n + 1 / 2) * (of_int n + 1 / 2)
                * (pow2 (binade x div 2 - 52) * pow2 (binade x div 2 - 52))"
proof -
  define e where "e = binade x"
  define u where "u = pow2 (e div 2 - 52)"
  define y where "y = x / (u * u)"
  define m where "m = \<lfloor>y\<rfloor>"
  define f where "f = floor_sqrt m"
  define n where "n = (if 4 * y < of_int ((2 * f + 1) * (2 * f + 1)) then f
                    else if of_int ((2 * f + 1) * (2 * f + 1)) < 4 * y then f + 1
                    else if even f then f else f + 1)"
  have u0: "0 < u" by (simp add: u_def pow2_pos)
  then have upos: "0 < u * u" by simp
  have xy: "x = y * (u * u)" using u0 by (simp add: y_def)
  have bounds: "pow2 e \<le> x" "x < pow2 (e + 1)"
    using binade_bounds [OF assms] by (simp_all add: e_def)
  have uu: "u * u = pow2 (2 * (e div 2) - 104)"
    unfolding u_def pow2_add [symmetric] by (rule arg_cong [of _ _ pow2]) simp
  have "pow2 104 * (u * u) = pow2 (104 + (2 * (e div 2) - 104))"
    by (simp only: uu pow2_add)
  also have "\<dots> \<le> pow2 e" by (rule pow2_mono) presburger
  finally have "pow2 104 * (u * u) \<le> x" using bounds(1) by simp
  then have "pow2 104 \<le> y" using upos by (simp add: y_def pos_le_divide_eq)
  then have lo: "2 ^ 104 \<le> y" by (simp add: pow2_def)
  have "pow2 (e + 1) \<le> pow2 (106 + (2 * (e div 2) - 104))"
    by (rule pow2_mono) presburger
  also have "\<dots> = pow2 106 * (u * u)" by (simp only: uu pow2_add)
  finally have "x < pow2 106 * (u * u)" using bounds(2) by simp
  then have "y < pow2 106" using upos by (simp add: y_def pos_divide_less_eq)
  then have hi: "y < 2 ^ 106" by (simp add: pow2_def)
  have m_lo: "2 ^ 104 \<le> m" using lo by (simp add: m_def le_floor_iff)
  have m_hi: "m < 2 ^ 106" using hi by (simp add: m_def floor_less_iff)
  have f: "0 \<le> f" "f * f \<le> m" "m < (f + 1) * (f + 1)"
    using floor_sqrt_correct [of m] m_lo m_hi by (simp_all add: f_def)
  have f_lo: "2 ^ 52 \<le> f"
  proof (rule ccontr)
    assume "\<not> 2 ^ 52 \<le> f"
    then have "f + 1 \<le> 2 ^ 52" by simp
    then have "(f + 1) * (f + 1) \<le> 2 ^ 52 * 2 ^ 52"
      using f(1) by (intro mult_mono) simp_all
    with f(3) m_lo show False by simp
  qed
  have f_hi: "f < 2 ^ 53"
  proof (rule ccontr)
    assume "\<not> f < 2 ^ 53"
    then have "2 ^ 53 \<le> f" by simp
    then have "2 ^ 53 * 2 ^ 53 \<le> f * f"
      by (intro mult_mono) simp_all
    with f(2) m_hi show False by simp
  qed
  define F :: rat where "F = of_int f"
  have F1: "1 \<le> F" using f_lo by (simp add: F_def)
  have "of_int (f * f) \<le> (of_int m :: rat)" using f(2) by (simp only: of_int_le_iff)
  moreover have "of_int m \<le> y" by (simp add: m_def)
  ultimately have Flo: "F * F \<le> y" by (simp add: F_def)
  have "m + 1 \<le> (f + 1) * (f + 1)" using f(3) by simp
  then have "of_int (m + 1) \<le> (of_int ((f + 1) * (f + 1)) :: rat)"
    by (simp only: of_int_le_iff)
  moreover have "y < of_int (m + 1)" unfolding m_def by linarith
  ultimately have Fhi: "y < (F + 1) * (F + 1)" by (simp add: F_def)
  have odd: "(of_int ((2 * f + 1) * (2 * f + 1)) :: rat) = 4 * ((F + 1 / 2) * (F + 1 / 2))"
    by (simp add: F_def algebra_simps)
  have near: "(of_int n - 1 / 2) * (of_int n - 1 / 2) \<le> y
              \<and> y \<le> (of_int n + 1 / 2) * (of_int n + 1 / 2)"
  proof -
    have n_below: "n = f" if "y < (F + 1 / 2) * (F + 1 / 2)"
      using that unfolding n_def odd by simp
    have n_above: "n = f + 1" if "(F + 1 / 2) * (F + 1 / 2) < y"
      using that unfolding n_def odd by simp
    have n_tie: "n = f \<or> n = f + 1"
      unfolding n_def by simp
    consider (below) "y < (F + 1 / 2) * (F + 1 / 2)" "n = f"
      | (above) "(F + 1 / 2) * (F + 1 / 2) < y" "n = f + 1"
      | (tie) "y = (F + 1 / 2) * (F + 1 / 2)" "n = f \<or> n = f + 1"
      using n_below n_above n_tie less_linear [of y "(F + 1 / 2) * (F + 1 / 2)"] by blast
    then show ?thesis
    proof cases
      case below
      have N: "(of_int n :: rat) = F" by (simp add: below(2) F_def)
      have "(F - 1 / 2) * (F - 1 / 2) \<le> F * F" using F1 by (simp add: algebra_simps)
      with Flo below(1) show ?thesis unfolding N by linarith
    next
      case above
      have N: "(of_int n :: rat) = F + 1" by (simp add: above(2) F_def)
      have a: "(F + 1 - 1 / 2) * (F + 1 - 1 / 2) = (F + 1 / 2) * (F + 1 / 2)"
          by (simp add: algebra_simps)
      have "(F + 1) * (F + 1) \<le> (F + 1 + 1 / 2) * (F + 1 + 1 / 2)"
        using F1 by (simp add: algebra_simps)
      with Fhi above(1) show ?thesis unfolding N a by linarith
    next
      case tie
      from tie(2) show ?thesis
      proof
        assume "n = f"
        then have N: "(of_int n :: rat) = F" by (simp add: F_def)
        have "(F - 1 / 2) * (F - 1 / 2) \<le> F * F" using F1 by (simp add: algebra_simps)
        with Flo tie(1) show ?thesis unfolding N by linarith
      next
        assume "n = f + 1"
        then have N: "(of_int n :: rat) = F + 1" by (simp add: F_def)
        have a: "(F + 1 - 1 / 2) * (F + 1 - 1 / 2) = (F + 1 / 2) * (F + 1 / 2)"
          by (simp add: algebra_simps)
        have "(F + 1) * (F + 1) \<le> (F + 1 + 1 / 2) * (F + 1 + 1 / 2)"
          using F1 by (simp add: algebra_simps)
        with Fhi tie(1) show ?thesis unfolding N a by linarith
      qed
    qed
  qed
  have n_range: "2 ^ 52 \<le> n" "n \<le> 2 ^ 53"
    using f_lo f_hi by (auto simp: n_def)
  have "js_sqrt x = of_int n * u"
    using assms by (simp add: js_sqrt_def Let_def n_def f_def m_def y_def u_def e_def)
  moreover have "(of_int n - 1 / 2) * (of_int n - 1 / 2) * (u * u) \<le> x"
    unfolding xy using near upos by (simp add: mult_right_mono)
  moreover have "x \<le> (of_int n + 1 / 2) * (of_int n + 1 / 2) * (u * u)"
    unfolding xy using near upos by (simp add: mult_right_mono)
  ultimately show ?thesis
    using n_range unfolding u_def e_def by blast
qed

section \<open>The fallback embedding and its similarity with itself\<close>

text \<open>
  The rounding shows in the similarity of a vector with itself. For two components
  0.500000 the sums are 0.5, the rounded root of 0.5 multiplied with itself is above
  0.5, and the quotient is the binary64 number below 1.
\<close>

lemma halves_sums:
  "foldl accumulate (0, 0, 0) (zip [1 / 2, 1 / 2] [1 / 2, 1 / 2]) = (1 / 2, 1 / 2, 1 / 2)"
  by code_simp

lemma sqrt_half: "js_sqrt (1 / 2) = 6369051672525773 / 9007199254740992"
  by code_simp

lemma sqrt_half_squared:
  "js_mul (6369051672525773 / 9007199254740992) (6369051672525773 / 9007199254740992)
   = 4503599627370497 / 9007199254740992"
  by code_simp

lemma half_over_square:
  "js_div (1 / 2) (4503599627370497 / 9007199254740992)
   = 4503599627370495 / 4503599627370496"
  by code_simp

lemma halves_similarity:
  "cosineSimilarity [1 / 2, 1 / 2] [1 / 2, 1 / 2]
   = Inr (Finite (4503599627370495 / 4503599627370496))"
  unfolding cosineSimilarity_def
  by (simp only: halves_sums sqrt_half sqrt_half_squared half_over_square js_divide_def
      list.size prod.case) simp

text \<open>A vector of zeros has the norm 0, and zero is divided by zero.\<close>

lemma zero_vector_similarity: "cosineSimilarity [0] [0] = Inr NaN"
  by (simp add: cosineSimilarity_def accumulate_def js_add_def js_mul_def round_double_def
      js_sqrt_def js_divide_def)

lemma zero_hash: "seedHash (trim (toLowerCase ''qnulabwr'') @ toString 0) = 0"
  by code_simp

lemma zero_component: "embeddingComponent (trim (toLowerCase ''qnulabwr'')) 0 = 0"
  by (simp add: embeddingComponent_def zero_hash js_div_def round_double_def toFixed6_def)

text \<open>
  C7 says that the fallback embedding of every text has similarity 1 with itself. For the
  text qnulabwr and one dimension the hash of the seed is 0, the component is formatted
  as 0.000000, and the similarity divides zero by zero.
\<close>

theorem zero_embedding_self_similarity:
  "generateSimpleEmbedding ''qnulabwr'' 1 = [0]
   \<and> cosineSimilarity (generateSimpleEmbedding ''qnulabwr'' 1)
        (generateSimpleEmbedding ''qnulabwr'' 1) = Inr NaN
   \<and> cosineSimilarity (generateSimpleEmbedding ''qnulabwr'' 1)
        (generateSimpleEmbedding ''qnulabwr'' 1) \<noteq> Inr (Finite 1)"
  by (simp add: generateSimpleEmbedding_def zero_component zero_vector_similarity)

end
